theory Spec2Isabelle
  imports Complex_Main "HOL-Library.Word" "HOL-Library.AList"
begin

section \<open>Rectangles\<close>

text \<open>
  Modelled from the spec: \<open>SkIRect\<close> and \<open>SkRect\<close> (include/core/SkRect.h) are used by
  the renderer but are not among its source files. A rectangle is its four edges. The
  integer edges are \<open>int32_t\<close> in the source and integers here; where the renderer
  multiplies two of their differences (\<open>onCanDrawPath\<close>) the 32-bit result is written
  out. The scalar edges are \<open>float\<close> in the source and reals here, so a theorem about
  them speaks of finite values only; a finite \<open>float\<close> is a real and comparing two of
  them is exact, but subtracting them rounds, and where the renderer subtracts scalars
  (the width and height of the crop tests) the rounded subtraction is a parameter.
\<close>

record 'a rect =
  fLeft :: 'a
  fTop :: 'a
  fRight :: 'a
  fBottom :: 'a

type_synonym SkIRect = "int rect"
type_synonym SkScalar = real
type_synonym SkRect = "SkScalar rect"

definition MakeLTRB :: "'a \<Rightarrow> 'a \<Rightarrow> 'a \<Rightarrow> 'a \<Rightarrow> 'a rect" where
  "MakeLTRB l t r b = \<lparr>fLeft = l, fTop = t, fRight = r, fBottom = b\<rparr>"

definition MakeWH :: "int \<Rightarrow> int \<Rightarrow> SkIRect" where
  "MakeWH w h = MakeLTRB 0 0 w h"

definition width :: "'a::minus rect \<Rightarrow> 'a" where
  "width r = fRight r - fLeft r"

definition height :: "'a::minus rect \<Rightarrow> 'a" where
  "height r = fBottom r - fTop r"

definition isEmpty :: "SkIRect \<Rightarrow> bool" where
  "isEmpty r = (fLeft r \<ge> fRight r \<or> fTop r \<ge> fBottom r)"

text \<open>
  Modelled from the spec: \<open>SkIRect::contains(r)\<close>, the test behind "the clip fully
  contains the path bounds". As in Skia an empty rectangle contains nothing and is
  contained in nothing.
\<close>

definition contains :: "SkIRect \<Rightarrow> SkIRect \<Rightarrow> bool" where
  "contains a r =
     (\<not> isEmpty r \<and> \<not> isEmpty a \<and>
      fLeft a \<le> fLeft r \<and> fTop a \<le> fTop r \<and>
      fRight a \<ge> fRight r \<and> fBottom a \<ge> fBottom r)"

text \<open>
  Modelled from the spec: \<open>SkIRect::intersect(a, b)\<close>, "intersect pathBounds with
  clipBounds". The C++ returns false and leaves the receiver alone when the rectangles
  do not overlap or one of them is empty (\<open>None\<close> here); otherwise it stores the
  overlap and returns true. \<open>x.intersect(r)\<close> is \<open>x.intersect(x, r)\<close>.
\<close>

definition intersect :: "SkIRect \<Rightarrow> SkIRect \<Rightarrow> SkIRect option" where
  "intersect a b =
     (if \<not> isEmpty a \<and> \<not> isEmpty b \<and>
         fLeft a < fRight b \<and> fLeft b < fRight a \<and>
         fTop a < fBottom b \<and> fTop b < fBottom a
      then Some (MakeLTRB (max (fLeft a) (fLeft b)) (max (fTop a) (fTop b))
                          (min (fRight a) (fRight b)) (min (fBottom a) (fBottom b)))
      else None)"

text \<open>
  Modelled from the spec: \<open>SkIRect::join(r)\<close>, which "widens the stored access-rectangle
  union (never shrinks)": joining an empty rectangle changes nothing, an empty receiver
  becomes \<open>r\<close>, otherwise each edge moves outwards.
\<close>

definition join :: "SkIRect \<Rightarrow> SkIRect \<Rightarrow> SkIRect" where
  "join this r =
     (if isEmpty r then this
      else if isEmpty this then r
      else MakeLTRB (min (fLeft this) (fLeft r)) (min (fTop this) (fTop r))
                    (max (fRight this) (fRight r)) (max (fBottom this) (fBottom r)))"

text \<open>
  Modelled from the spec: \<open>SkRect::roundOut\<close>, the smallest integer rectangle around a
  scalar one.
\<close>

definition roundOut :: "SkRect \<Rightarrow> SkIRect" where
  "roundOut r = MakeLTRB \<lfloor>fLeft r\<rfloor> \<lfloor>fTop r\<rfloor> \<lceil>fRight r\<rceil> \<lceil>fBottom r\<rceil>"

text \<open>
  Modelled from the spec: \<open>GrOp::joinBounds\<close>, which "accumulates bounding-box union"
  edge by edge.
\<close>

definition joinBounds :: "SkRect \<Rightarrow> SkRect \<Rightarrow> SkRect" where
  "joinBounds a b = MakeLTRB (min (fLeft a) (fLeft b)) (min (fTop a) (fTop b))
                             (max (fRight a) (fRight b)) (max (fBottom a) (fBottom b))"

section \<open>GrAHardwareBufferImageGenerator::Make\<close>

text \<open>
  The three pixel formats the switch names, with their values in
  \<open>android/hardware_buffer.h\<close>; \<open>bufferDesc.format\<close> is a \<open>uint32_t\<close>.
\<close>

definition AHARDWAREBUFFER_FORMAT_R8G8B8A8_UNORM :: "32 word" where
  "AHARDWAREBUFFER_FORMAT_R8G8B8A8_UNORM = 1"

definition AHARDWAREBUFFER_FORMAT_R16G16B16A16_FLOAT :: "32 word" where
  "AHARDWAREBUFFER_FORMAT_R16G16B16A16_FLOAT = 0x16"

definition AHARDWAREBUFFER_FORMAT_R5G6B5_UNORM :: "32 word" where
  "AHARDWAREBUFFER_FORMAT_R5G6B5_UNORM = 4"

datatype SkColorType = kRGBA_8888_SkColorType | kRGBA_F16_SkColorType | kRGB_565_SkColorType

record AHardwareBuffer_Desc =
  desc_width :: "32 word"
  desc_height :: "32 word"
  desc_format :: "32 word"

record ('alpha, 'cs) SkImageInfo =
  info_width :: int
  info_height :: int
  info_colorType :: SkColorType
  info_alphaType :: 'alpha
  info_colorSpace :: 'cs

record ('alpha, 'cs, 'buf) GrAHardwareBufferImageGenerator =
  getInfo :: "('alpha, 'cs) SkImageInfo"
  fGraphicBuffer :: 'buf

text \<open>
  \<open>AHardwareBuffer_describe\<close> is the platform's; it is a parameter. A null
  \<open>unique_ptr\<close> is \<open>None\<close>. The \<open>uint32_t\<close> sizes are passed where \<open>int\<close> is
  expected, hence \<open>sint\<close>.
\<close>

definition Make ::
  "('buf \<Rightarrow> AHardwareBuffer_Desc) \<Rightarrow> 'buf \<Rightarrow> 'alpha \<Rightarrow> 'cs \<Rightarrow>
   ('alpha, 'cs, 'buf) GrAHardwareBufferImageGenerator option" where
  "Make AHardwareBuffer_describe graphicBuffer alphaType colorSpace =
     (let bufferDesc = AHardwareBuffer_describe graphicBuffer;
          gen = (\<lambda>colorType.
             Some \<lparr>getInfo = \<lparr>info_width = sint (desc_width bufferDesc),
                               info_height = sint (desc_height bufferDesc),
                               info_colorType = colorType,
                               info_alphaType = alphaType,
                               info_colorSpace = colorSpace\<rparr>,
                   fGraphicBuffer = graphicBuffer\<rparr>)
      in if desc_format bufferDesc = AHARDWAREBUFFER_FORMAT_R8G8B8A8_UNORM
           then gen kRGBA_8888_SkColorType
         else if desc_format bufferDesc = AHARDWAREBUFFER_FORMAT_R16G16B16A16_FLOAT
           then gen kRGBA_F16_SkColorType
         else if desc_format bufferDesc = AHARDWAREBUFFER_FORMAT_R5G6B5_UNORM
           then gen kRGB_565_SkColorType
         else None)"

section \<open>GrCoverageCountingPathRenderer::onCanDrawPath\<close>

datatype CanDrawPath = kNo | kAsBackup | kYes

datatype GrAAType = kNone | kCoverage | kMSAA | kMixedSamples

text \<open>
  What \<open>onCanDrawPath\<close> reads of its arguments. \<open>devIBounds\<close> is the rectangle the
  source obtains from \<open>fViewMatrix->mapRect(path.getBounds())\<close> and \<open>roundOut\<close>,
  before it is intersected with the clip.
\<close>

record CanDrawPathArgs =
  hasUnstyledKey :: bool
  isSimpleFill :: bool
  inverseFilled :: bool
  hasPerspective :: bool
  fAAType :: GrAAType
  ConicWeightCnt :: int
  devIBounds :: SkIRect
  fClipConservativeBounds :: SkIRect
  countVerbs :: int

text \<open>
  A value stored in an \<open>int32_t\<close>: the low 32 bits, read as two's complement.
  \<open>devIBounds.height() * devIBounds.width()\<close> multiplies two \<open>int32_t\<close> into an
  \<open>int\<close> of 32 bits.
\<close>

definition int32_t :: "int \<Rightarrow> int" where
  "int32_t x = sint (word_of_int x :: 32 word)"

definition onCanDrawPath :: "bool \<Rightarrow> CanDrawPathArgs \<Rightarrow> CanDrawPath" where
  "onCanDrawPath fDrawCachablePaths args =
     (if hasUnstyledKey args \<and> \<not> fDrawCachablePaths then kNo
      else if \<not> isSimpleFill args \<or> inverseFilled args \<or> hasPerspective args \<or>
              kCoverage \<noteq> fAAType args then kNo
      else if ConicWeightCnt args \<noteq> 0 then kNo
      else case intersect (devIBounds args) (fClipConservativeBounds args) of
        None \<Rightarrow> kYes
      | Some clipped \<Rightarrow>
          if int32_t (int32_t (height clipped) * int32_t (width clipped)) > 256 * 256
          then kAsBackup
          else if hasUnstyledKey args \<and> countVerbs args > 50 then kAsBackup
          else kYes)"

section \<open>Collaborators\<close>

text \<open>
  Paths, matrices and atlases belong to code outside the renderer's own file
  (\<open>SkPath\<close>, \<open>SkMatrix\<close>, \<open>SkPathOps\<close>, \<open>GrCCPRAtlas\<close>,
  \<open>GrCCPRCoverageOpsBuilder\<close>, \<open>GrOnFlushResourceProvider\<close>). They are type
  parameters, and what the renderer calls on them is a record of functions that every
  definition below takes as its first argument. An operation that can fail returns
  \<open>None\<close> or \<open>False\<close> where the C++ returns \<open>false\<close> or a null pointer. The
  record also holds the single-precision subtraction of the machine, \<open>float_minus\<close>,
  which the real numbers of the model do not have.
\<close>

datatype FillType =
  kWinding_FillType | kEvenOdd_FillType | kInverseWinding_FillType | kInverseEvenOdd_FillType

datatype ScissorMode = kNonScissored | kScissored

text \<open>
  \<open>GrCCPRCoverageOpsBuilder\<close> is not among the sources; the model keeps the calls the
  renderer makes on it, in order.
\<close>

datatype ('path, 'matrix) BuilderCall =
    parsePath 'matrix 'path
  | parseDeviceSpacePath 'path
  | saveParsedPath ScissorMode SkIRect int int
  | discardParsedPath
  | emitOp "int \<times> int"

record ('path, 'matrix, 'atlas) Collaborators =
  float_minus :: "SkScalar \<Rightarrow> SkScalar \<Rightarrow> SkScalar"
  Op_kIntersect :: "'path \<Rightarrow> 'path \<Rightarrow> 'path option"
  addRect :: "SkRect \<Rightarrow> 'path"
  reset :: 'path
  transform :: "'matrix \<Rightarrow> 'path \<Rightarrow> 'path"
  setIdentity :: 'matrix
  mapRect :: "'matrix \<Rightarrow> SkRect \<Rightarrow> SkRect"
  getBounds :: "'path \<Rightarrow> SkRect"
  getFillType :: "'path \<Rightarrow> FillType"
  getGenerationID :: "'path \<Rightarrow> nat"
  countPoints :: "'path \<Rightarrow> int"
  countVerbs_of :: "'path \<Rightarrow> int"
  parsePath_bounds :: "'matrix \<Rightarrow> 'path \<Rightarrow> SkRect \<times> SkRect"
  GrCCPRAtlas_new :: "int \<Rightarrow> int \<Rightarrow> 'atlas"
  atlas_addRect :: "'atlas \<Rightarrow> int \<Rightarrow> int \<Rightarrow> 'atlas \<times> (int \<times> int) option"
  atlas_drawBounds :: "'atlas \<Rightarrow> int \<times> int"
  atlas_finalize :: "'atlas \<Rightarrow> 'atlas \<times> bool"
  atlas_textureProxy :: "'atlas \<Rightarrow> bool"
  uninitialized_location :: "int \<times> int"
  FindOrMakeIndexBuffer :: bool
  FindOrMakeVertexBuffer :: bool
  makeBuffer :: "int \<Rightarrow> bool"
  sizeof_PathInstance :: int
  builder_finalize :: "('path, 'matrix) BuilderCall list \<Rightarrow> bool"

section \<open>crop_path and the DrawPathsOp constructor\<close>

definition kPathCropThreshold :: SkScalar where
  "kPathCropThreshold = 2 ^ 16"

text \<open>
  Modelled from the spec: \<open>SkRect::width()\<close> and \<open>SkRect::height()\<close> (SkRect.h, not
  among the sources), the dimensions of a "device-space bounding box". Each subtracts
  two \<open>float\<close>s, and the result is rounded to a \<open>float\<close>: \<open>float_minus\<close>, the
  subtraction of the machine, is a parameter.
\<close>

definition SkRect_width :: "('path, 'matrix, 'atlas) Collaborators \<Rightarrow> SkRect \<Rightarrow> SkScalar" where
  "SkRect_width sk r = float_minus sk (fRight r) (fLeft r)"

definition SkRect_height :: "('path, 'matrix, 'atlas) Collaborators \<Rightarrow> SkRect \<Rightarrow> SkScalar" where
  "SkRect_height sk r = float_minus sk (fBottom r) (fTop r)"

text \<open>
  Modelled from the spec: \<open>SkRect::Make(const SkIRect&)\<close> (SkRect.h) converts each edge
  to a scalar. The conversion is exact for edges up to \<open>2 ^ 24\<close> in magnitude, which
  clip bounds within a render target are.
\<close>

definition SkRect_Make :: "SkIRect \<Rightarrow> SkRect" where
  "SkRect_Make r = MakeLTRB (of_int (fLeft r)) (of_int (fTop r))
                            (of_int (fRight r)) (of_int (fBottom r))"

text \<open>
  \<open>crop_path\<close> returns nothing and writes \<open>*out\<close>; the model returns the path that
  \<open>*out\<close> holds afterwards.
\<close>

definition crop_path ::
  "('path, 'matrix, 'atlas) Collaborators \<Rightarrow> 'path \<Rightarrow> SkIRect \<Rightarrow> 'path" where
  "crop_path sk path cropbox =
     (let cropPath = addRect sk (SkRect_Make cropbox)
      in case Op_kIntersect sk cropPath path of
           None \<Rightarrow> reset sk
         | Some out \<Rightarrow> out)"

type_synonym GrColor = "32 word"

text \<open>
  A \<open>SingleDraw\<close> is a node of an intrusive forward list. The head node is a member of
  its op; every other node lives in the \<open>fDrawsAllocator\<close> of the op's
  \<open>RTPendingPaths\<close>, so \<open>fNext\<close> is an index into that allocator (\<open>None\<close> is the
  null pointer) and \<open>fTailDraw\<close> is either the op's own head or such an index.
\<close>

record ('path, 'matrix) SingleDraw =
  fClipIBounds :: SkIRect
  fMatrix :: 'matrix
  fPath :: 'path
  fColor :: GrColor
  fNext :: "nat option"

datatype DrawPtr = HeadDraw | Allocated nat

datatype AtlasBatch = AtlasBatch (batch_atlas: nat) (fEndInstanceIdx: int)

text \<open>
  \<open>fInstanceCount\<close> and \<open>fNumSkippedInstances\<close> exist in debug builds only
  (\<open>SkDEBUGCODE\<close>); the model is of a debug build and keeps them, but an \<open>SkASSERT\<close>
  is not a branch of it.
\<close>

record ('path, 'matrix, 'proc) DrawPathsOp =
  fSRGBFlags :: "32 word"
  fProcessors :: 'proc
  fHeadDraw :: "('path, 'matrix) SingleDraw"
  fTailDraw :: DrawPtr
  fOwningRTPendingPaths :: "nat option"
  fBounds :: SkRect
  fBaseInstance :: int
  fInstanceCount :: int
  fNumSkippedInstances :: int
  fAtlasBatches :: "AtlasBatch list"

text \<open>
  What the constructor reads of \<open>DrawPathArgs\<close>: the view matrix, the shape's bounds
  and path, the clip's conservative bounds for the render target, and the paint.
\<close>

record ('path, 'matrix, 'proc) DrawPathArgs =
  fViewMatrix :: 'matrix
  fShape_bounds :: SkRect
  fShape_asPath :: 'path
  fClip_getConservativeBounds :: SkIRect
  SRGBFlagsFromPaint :: "32 word"
  fPaint :: 'proc

definition DrawPathsOp_ctor ::
  "('path, 'matrix, 'atlas) Collaborators \<Rightarrow> ('path, 'matrix, 'proc) DrawPathArgs \<Rightarrow> GrColor \<Rightarrow>
   ('path, 'matrix, 'proc) DrawPathsOp" where
  "DrawPathsOp_ctor sk args color =
     (let devBounds = mapRect sk (fViewMatrix args) (fShape_bounds args);
          clipIBounds = fClip_getConservativeBounds args;
          (matrix, path, devBounds') =
            (if max (SkRect_height sk devBounds) (SkRect_width sk devBounds) > kPathCropThreshold
             then let path = transform sk (fViewMatrix args) (fShape_asPath args);
                      cropped = crop_path sk path clipIBounds
                  in (setIdentity sk, cropped, getBounds sk cropped)
             else (fViewMatrix args, fShape_asPath args, devBounds))
      in \<lparr>fSRGBFlags = SRGBFlagsFromPaint args,
          fProcessors = fPaint args,
          fHeadDraw = \<lparr>fClipIBounds = clipIBounds, fMatrix = matrix, fPath = path,
                       fColor = color, fNext = None\<rparr>,
          fTailDraw = HeadDraw,
          fOwningRTPendingPaths = None,
          fBounds = devBounds',
          fBaseInstance = -1,
          fInstanceCount = 1,
          fNumSkippedInstances = 0,
          fAtlasBatches = []\<rparr>)"

section \<open>DrawPathsOp::onCombineIfPossible\<close>

text \<open>
  Modelled from the spec: \<open>DrawPathsOp::getFillType()\<close> is defined in the renderer's
  header, which is not among the sources. A batch has one fill rule, the fill type of
  the path of its head draw.
\<close>

definition op_getFillType ::
  "('path, 'matrix, 'atlas) Collaborators \<Rightarrow> ('path, 'matrix, 'proc) DrawPathsOp \<Rightarrow> FillType" where
  "op_getFillType sk op = getFillType sk (fPath (fHeadDraw op))"

text \<open>
  \<open>fTailDraw->fNext = p\<close>: the tail is the op's head or an allocator node. The index
  is in range on an op that \<open>owns\<close> its chain (below), which is what the theorem
  about the merge assumes.
\<close>

definition set_tail_next ::
  "('path, 'matrix, 'proc) DrawPathsOp \<Rightarrow> ('path, 'matrix) SingleDraw list \<Rightarrow> nat \<Rightarrow>
   ('path, 'matrix, 'proc) DrawPathsOp \<times> ('path, 'matrix) SingleDraw list" where
  "set_tail_next this A p =
     (case fTailDraw this of
        HeadDraw \<Rightarrow> (this\<lparr>fHeadDraw := (fHeadDraw this)\<lparr>fNext := Some p\<rparr>\<rparr>, A)
      | Allocated t \<Rightarrow> (this, A[t := (A ! t)\<lparr>fNext := Some p\<rparr>]))"

text \<open>
  The result is the returned flag, \<open>this\<close>, \<open>that\<close> and the allocator
  \<open>fOwningRTPendingPaths->fDrawsAllocator\<close> after the call. \<open>push_back\<close> copies
  \<open>that->fHeadDraw\<close> (its \<open>fNext\<close> included) to the end of the allocator.
\<close>

definition onCombineIfPossible ::
  "('path, 'matrix, 'atlas) Collaborators \<Rightarrow> ('path, 'matrix, 'proc) DrawPathsOp \<Rightarrow>
   ('path, 'matrix, 'proc) DrawPathsOp \<Rightarrow> ('path, 'matrix) SingleDraw list \<Rightarrow>
   bool \<times> ('path, 'matrix, 'proc) DrawPathsOp \<times> ('path, 'matrix, 'proc) DrawPathsOp \<times>
   ('path, 'matrix) SingleDraw list" where
  "onCombineIfPossible sk this that fDrawsAllocator =
     (if op_getFillType sk this \<noteq> op_getFillType sk that \<or>
         fSRGBFlags this \<noteq> fSRGBFlags that \<or>
         fProcessors this \<noteq> fProcessors that
      then (False, this, that, fDrawsAllocator)
      else
        let pushed = length fDrawsAllocator;
            (this1, A1) = set_tail_next this (fDrawsAllocator @ [fHeadDraw that]) pushed;
            this2 = this1\<lparr>fTailDraw :=
                      (if fTailDraw that = HeadDraw then Allocated pushed else fTailDraw that)\<rparr>;
            this3 = this2\<lparr>fBounds := joinBounds (fBounds this2) (fBounds that)\<rparr>;
            this4 = this3\<lparr>fInstanceCount := fInstanceCount this3 + fInstanceCount that\<rparr>
        in (True, this4, that\<lparr>fInstanceCount := 0\<rparr>, A1))"

text \<open>
  The loop \<open>for (draw = op->head(); draw; draw = draw->fNext)\<close>. \<open>follow n A p\<close>
  collects the nodes from pointer \<open>p\<close> on; it gives \<open>None\<close> when a pointer leaves the
  allocator or when \<open>n\<close> hops did not reach the null pointer, which on an allocator of
  \<open>n\<close> nodes means the chain runs in a circle and the C++ loop does not return.
\<close>

fun follow ::
  "nat \<Rightarrow> ('path, 'matrix) SingleDraw list \<Rightarrow> nat option \<Rightarrow>
   ('path, 'matrix) SingleDraw list option" where
  "follow n A None = Some []"
| "follow 0 A (Some i) = None"
| "follow (Suc n) A (Some i) =
     (if i < length A
      then map_option ((#) (A ! i)) (follow n A (fNext (A ! i)))
      else None)"

definition SingleDraws ::
  "('path, 'matrix) SingleDraw list \<Rightarrow> ('path, 'matrix, 'proc) DrawPathsOp \<Rightarrow>
   ('path, 'matrix) SingleDraw list option" where
  "SingleDraws A op = map_option ((#) (fHeadDraw op)) (follow (length A) A (fNext (fHeadDraw op)))"

text \<open>
  The well-formed chains, as a relation: \<open>chain A p js\<close> when following \<open>fNext\<close>
  from \<open>p\<close> visits exactly the allocator nodes \<open>js\<close> and then the null pointer.
\<close>

primrec chain :: "('path, 'matrix) SingleDraw list \<Rightarrow> nat option \<Rightarrow> nat list \<Rightarrow> bool" where
  "chain A p [] = (p = None)"
| "chain A p (i # js) = (p = Some i \<and> i < length A \<and> chain A (fNext (A ! i)) js)"

text \<open>
  The payload of a node: everything but its link.
\<close>

definition payload :: "('path, 'matrix) SingleDraw \<Rightarrow> ('path, 'matrix) SingleDraw" where
  "payload d = d\<lparr>fNext := None\<rparr>"

text \<open>
  An op owns the chain \<open>js\<close> in allocator \<open>A\<close>: its head leads through \<open>js\<close> to
  the null pointer, and \<open>fTailDraw\<close> is the last node on the way.
\<close>

definition owns ::
  "('path, 'matrix) SingleDraw list \<Rightarrow> ('path, 'matrix, 'proc) DrawPathsOp \<Rightarrow> nat list \<Rightarrow> bool" where
  "owns A op js =
     (chain A (fNext (fHeadDraw op)) js \<and>
      fTailDraw op = (if js = [] then HeadDraw else Allocated (last js)))"

section \<open>Clip paths and makeClipProcessor\<close>

text \<open>
  A \<open>ClipPath\<close> of the map \<open>fClipPaths\<close>. \<open>operator[]\<close> inserts an uninitialized
  entry that \<open>init\<close> fills at once, so an entry of the model's map is an initialized
  one and a missing key is \<open>isUninitialized()\<close>. The atlas offsets have no value
  before a placement succeeds.
\<close>

record 'path ClipPath =
  fDeviceSpacePath :: 'path
  fPathDevIBounds :: SkIRect
  fAccessRect :: SkIRect
  fAtlas :: "nat option"
  fAtlasOffset :: "(int \<times> int) option"
  fHasAtlas :: bool

definition ClipPath_init ::
  "('path, 'matrix, 'atlas) Collaborators \<Rightarrow> 'path \<Rightarrow> SkIRect \<Rightarrow> int \<Rightarrow> int \<Rightarrow> 'path ClipPath" where
  "ClipPath_init sk deviceSpacePath accessRect rtWidth rtHeight =
     (let pathDevBounds = getBounds sk deviceSpacePath
      in \<lparr>fDeviceSpacePath =
            (if max (SkRect_height sk pathDevBounds) (SkRect_width sk pathDevBounds)
                  > kPathCropThreshold
             then crop_path sk deviceSpacePath (MakeWH rtWidth rtHeight)
             else deviceSpacePath),
          fPathDevIBounds = roundOut (getBounds sk deviceSpacePath),
          fAccessRect = accessRect,
          fAtlas = None,
          fAtlasOffset = None,
          fHasAtlas = False\<rparr>)"

text \<open>
  Modelled from the spec: \<open>ClipPath::addAccess\<close> is defined in the renderer's header,
  which is not among the sources. It "widens the stored access-rectangle union".
\<close>

definition addAccess :: "'path ClipPath \<Rightarrow> SkIRect \<Rightarrow> 'path ClipPath" where
  "addAccess clipPath accessRect = clipPath\<lparr>fAccessRect := join (fAccessRect clipPath) accessRect\<rparr>"

record ('path, 'matrix, 'proc) RTPendingPaths =
  fDrawOps :: "('path, 'matrix, 'proc) DrawPathsOp list"
  fClipPaths :: "(nat \<times> 'path ClipPath) list"
  fDrawsAllocator :: "('path, 'matrix) SingleDraw list"

definition RTPendingPaths_new :: "('path, 'matrix, 'proc) RTPendingPaths" where
  "RTPendingPaths_new = \<lparr>fDrawOps = [], fClipPaths = [], fDrawsAllocator = []\<rparr>"

text \<open>
  The renderer. The two \<open>std::map\<close>s are association lists read with \<open>map_of\<close> and
  written with \<open>AList.update\<close>; a buffer pointer is the flag "not null"; an atlas pointer
  is an index into \<open>fPerFlushAtlases\<close>.
\<close>

record ('path, 'matrix, 'proc, 'atlas) GrCoverageCountingPathRenderer =
  fDrawCachablePaths :: bool
  fRTPendingPathsMap :: "(nat \<times> ('path, 'matrix, 'proc) RTPendingPaths) list"
  fPerFlushIndexBuffer :: bool
  fPerFlushVertexBuffer :: bool
  fPerFlushInstanceBuffer :: bool
  fPerFlushAtlases :: "'atlas list"
  fPerFlushResourcesAreValid :: bool
  fFlushing :: bool

record GrCCPRClipProcessor =
  fClipPath :: "nat \<times> nat"
  fMustCheckBounds :: bool
  fOverrideFillType :: FillType

definition pendingPaths ::
  "('path, 'matrix, 'proc, 'atlas) GrCoverageCountingPathRenderer \<Rightarrow> nat \<Rightarrow>
   ('path, 'matrix, 'proc) RTPendingPaths" where
  "pendingPaths ccpr opListID =
     (case map_of (fRTPendingPathsMap ccpr) opListID of
        None \<Rightarrow> RTPendingPaths_new
      | Some rt \<Rightarrow> rt)"

definition makeClipProcessor ::
  "('path, 'matrix, 'atlas) Collaborators \<Rightarrow>
   ('path, 'matrix, 'proc, 'atlas) GrCoverageCountingPathRenderer \<Rightarrow>
   nat \<Rightarrow> 'path \<Rightarrow> SkIRect \<Rightarrow> int \<Rightarrow> int \<Rightarrow>
   GrCCPRClipProcessor \<times> ('path, 'matrix, 'proc, 'atlas) GrCoverageCountingPathRenderer" where
  "makeClipProcessor sk ccpr opListID deviceSpacePath accessRect rtWidth rtHeight =
     (let rt = pendingPaths ccpr opListID;
          key = getGenerationID sk deviceSpacePath;
          clipPath =
            (case map_of (fClipPaths rt) key of
               None \<Rightarrow> ClipPath_init sk deviceSpacePath accessRect rtWidth rtHeight
             | Some c \<Rightarrow> addAccess c accessRect);
          mustCheckBounds = (\<not> contains (fPathDevIBounds clipPath) accessRect);
          rt' = rt\<lparr>fClipPaths := AList.update key clipPath (fClipPaths rt)\<rparr>
      in (\<lparr>fClipPath = (opListID, key),
           fMustCheckBounds = mustCheckBounds,
           fOverrideFillType = getFillType sk deviceSpacePath\<rparr>,
          ccpr\<lparr>fRTPendingPathsMap := AList.update opListID rt' (fRTPendingPathsMap ccpr)\<rparr>))"

text \<open>
  A run of \<open>makeClipProcessor\<close> calls for one path in one render-target list, one
  access rectangle per call; the processors come back in call order.
\<close>

fun makeClipProcessor_calls ::
  "('path, 'matrix, 'atlas) Collaborators \<Rightarrow>
   ('path, 'matrix, 'proc, 'atlas) GrCoverageCountingPathRenderer \<Rightarrow>
   nat \<Rightarrow> 'path \<Rightarrow> int \<Rightarrow> int \<Rightarrow> SkIRect list \<Rightarrow>
   GrCCPRClipProcessor list \<times> ('path, 'matrix, 'proc, 'atlas) GrCoverageCountingPathRenderer" where
  "makeClipProcessor_calls sk ccpr opListID path rtWidth rtHeight [] = ([], ccpr)"
| "makeClipProcessor_calls sk ccpr opListID path rtWidth rtHeight (accessRect # rest) =
     (let (fp, ccpr') = makeClipProcessor sk ccpr opListID path accessRect rtWidth rtHeight;
          (fps, ccpr'') = makeClipProcessor_calls sk ccpr' opListID path rtWidth rtHeight rest
      in (fp # fps, ccpr''))"

definition clipPath_of ::
  "('path, 'matrix, 'proc, 'atlas) GrCoverageCountingPathRenderer \<Rightarrow> nat \<times> nat \<Rightarrow>
   'path ClipPath option" where
  "clipPath_of ccpr ptr = map_of (fClipPaths (pendingPaths ccpr (fst ptr))) (snd ptr)"

section \<open>Placing a parsed path in an atlas\<close>

definition int16_t :: "int \<Rightarrow> int" where
  "int16_t x = sint (word_of_int x :: 16 word)"

text \<open>
  The first part of \<open>placeParsedPathInAtlas\<close>: the clipped bounds and the scissor
  mode, or \<open>None\<close> on the branch that discards the path and returns a null atlas.
\<close>

definition clipPathIBounds :: "SkIRect \<Rightarrow> SkIRect \<Rightarrow> (SkIRect \<times> ScissorMode) option" where
  "clipPathIBounds clipIBounds pathIBounds =
     (if contains clipIBounds pathIBounds then Some (pathIBounds, kNonScissored)
      else case intersect clipIBounds pathIBounds of
             Some clippedPathIBounds \<Rightarrow> Some (clippedPathIBounds, kScissored)
           | None \<Rightarrow> None)"

text \<open>
  The second part: find room in the last atlas or open a new one. The result of
  \<open>addRect\<close> on the new atlas is not looked at by the source; when it fails
  \<open>atlasLocation\<close> keeps the indeterminate value it was declared with.
\<close>

definition atlas_place ::
  "('path, 'matrix, 'atlas) Collaborators \<Rightarrow> 'atlas list \<Rightarrow> ('path, 'matrix) BuilderCall list \<Rightarrow>
   int \<Rightarrow> int \<Rightarrow> 'atlas list \<times> ('path, 'matrix) BuilderCall list \<times> (int \<times> int)" where
  "atlas_place sk atlases builder w h =
     (let tried = (if atlases = [] then None
                   else Some (atlas_addRect sk (last atlases) w h))
      in case tried of
           Some (back, Some atlasLocation) \<Rightarrow> (butlast atlases @ [back], builder, atlasLocation)
         | _ \<Rightarrow>
           let atlases1 = (case tried of Some (back, _) \<Rightarrow> butlast atlases @ [back] | None \<Rightarrow> atlases);
               builder1 = (if atlases \<noteq> []
                           then builder @ [emitOp (atlas_drawBounds sk (last atlases1))]
                           else builder);
               (fresh, placed) = atlas_addRect sk (GrCCPRAtlas_new sk w h) w h
           in (atlases1 @ [fresh], builder1,
               case placed of Some atlasLocation \<Rightarrow> atlasLocation
                            | None \<Rightarrow> uninitialized_location sk))"

text \<open>
  The result is the returned atlas pointer with the two offsets written through
  \<open>atlasOffsetX\<close> and \<open>atlasOffsetY\<close> (\<open>None\<close> for the null pointer, when the offsets
  are not written), then \<open>fPerFlushAtlases\<close> and the builder after the call.
\<close>

definition placeParsedPathInAtlas ::
  "('path, 'matrix, 'atlas) Collaborators \<Rightarrow> 'atlas list \<Rightarrow> ('path, 'matrix) BuilderCall list \<Rightarrow>
   SkIRect \<Rightarrow> SkIRect \<Rightarrow>
   (nat \<times> int \<times> int) option \<times> 'atlas list \<times> ('path, 'matrix) BuilderCall list" where
  "placeParsedPathInAtlas sk atlases atlasOpsBuilder clipIBounds pathIBounds =
     (case clipPathIBounds clipIBounds pathIBounds of
        None \<Rightarrow> (None, atlases, atlasOpsBuilder @ [discardParsedPath])
      | Some (clippedPathIBounds, scissorMode) \<Rightarrow>
          let h = height clippedPathIBounds;
              w = width clippedPathIBounds;
              (atlases', builder', atlasLocation) = atlas_place sk atlases atlasOpsBuilder w h;
              atlasOffsetX = int16_t (fst atlasLocation - int16_t (fLeft clippedPathIBounds));
              atlasOffsetY = int16_t (snd atlasLocation - int16_t (fTop clippedPathIBounds))
          in (Some (length atlases' - 1, atlasOffsetX, atlasOffsetY), atlases',
              builder' @ [saveParsedPath scissorMode clippedPathIBounds atlasOffsetX atlasOffsetY]))"

section \<open>The flush: preFlush, setupResources, onExecute, postFlush\<close>

text \<open>
  One record of the instance buffer. The source stores the six affine entries of the
  draw's matrix; the model stores the matrix.
\<close>

datatype 'matrix PathInstance =
  PathInstance SkRect SkRect 'matrix "int \<times> int" GrColor

text \<open>
  What the second loop of \<open>preFlush\<close> works on: the atlases, the ops builder, the
  mapped instance buffer (a slot is \<open>None\<close> until it is written), the next free slot
  and the debug count of skipped paths.
\<close>

record ('path, 'matrix, 'atlas) Flush =
  atlases :: "'atlas list"
  atlasOpsBuilder :: "('path, 'matrix) BuilderCall list"
  pathInstanceData :: "int \<Rightarrow> 'matrix PathInstance option"
  pathInstanceIdx :: int
  skippedTotalPaths :: int

text \<open>
  The draws the loops of the flush visit for one op. A chain that does not end is not
  a list; the theorems about the flush assume \<open>chains_ok\<close>, which rules it out.
\<close>

definition head_draws ::
  "('path, 'matrix) SingleDraw list \<Rightarrow> ('path, 'matrix, 'proc) DrawPathsOp \<Rightarrow>
   ('path, 'matrix) SingleDraw list" where
  "head_draws A op = (case SingleDraws A op of Some ds \<Rightarrow> ds | None \<Rightarrow> [])"

text \<open>
  Modelled from the spec: \<open>DrawPathsOp::addAtlasBatch\<close> is defined in the renderer's
  header, which is not among the sources. It records the end of a "contiguous run of
  instances sharing the same atlas page".
\<close>

definition addAtlasBatch ::
  "('path, 'matrix, 'proc) DrawPathsOp \<Rightarrow> nat \<Rightarrow> int \<Rightarrow> ('path, 'matrix, 'proc) DrawPathsOp" where
  "addAtlasBatch op atlas endInstanceIdx =
     op\<lparr>fAtlasBatches := fAtlasBatches op @ [AtlasBatch atlas endInstanceIdx]\<rparr>"

text \<open>
  The body of the loop of \<open>setupResources\<close> for one draw: the op, \<open>currentAtlas\<close>
  and the flush state before and after.
\<close>

definition setupResources_draw ::
  "('path, 'matrix, 'atlas) Collaborators \<Rightarrow> ('path, 'matrix) SingleDraw \<Rightarrow>
   ('path, 'matrix, 'proc) DrawPathsOp \<times> nat option \<times> ('path, 'matrix, 'atlas) Flush \<Rightarrow>
   ('path, 'matrix, 'proc) DrawPathsOp \<times> nat option \<times> ('path, 'matrix, 'atlas) Flush" where
  "setupResources_draw sk draw s =
     (case s of (op, currentAtlas, fl) \<Rightarrow>
        let (devBounds, devBounds45) = parsePath_bounds sk (fMatrix draw) (fPath draw);
            builder1 = atlasOpsBuilder fl @ [parsePath (fMatrix draw) (fPath draw)];
            devIBounds = roundOut devBounds;
            (placed, atlases', builder2) =
              placeParsedPathInAtlas sk (atlases fl) builder1 (fClipIBounds draw) devIBounds;
            fl1 = fl\<lparr>atlases := atlases', atlasOpsBuilder := builder2\<rparr>
        in case placed of
             None \<Rightarrow>
               (op\<lparr>fNumSkippedInstances := fNumSkippedInstances op + 1\<rparr>, currentAtlas, fl1)
           | Some (atlas, offsetX, offsetY) \<Rightarrow>
               let op1 = (if currentAtlas \<noteq> Some atlas
                          then (case currentAtlas of
                                  Some cur \<Rightarrow> addAtlasBatch op cur (pathInstanceIdx fl1)
                                | None \<Rightarrow> op)
                          else op)
               in (op1, Some atlas,
                   fl1\<lparr>pathInstanceData := (pathInstanceData fl1)
                          (pathInstanceIdx fl1 \<mapsto>
                             PathInstance devBounds devBounds45 (fMatrix draw) (offsetX, offsetY)
                               (fColor draw)),
                        pathInstanceIdx := pathInstanceIdx fl1 + 1\<rparr>))"

fun setupResources_loop ::
  "('path, 'matrix, 'atlas) Collaborators \<Rightarrow> ('path, 'matrix) SingleDraw list \<Rightarrow>
   ('path, 'matrix, 'proc) DrawPathsOp \<times> nat option \<times> ('path, 'matrix, 'atlas) Flush \<Rightarrow>
   ('path, 'matrix, 'proc) DrawPathsOp \<times> nat option \<times> ('path, 'matrix, 'atlas) Flush" where
  "setupResources_loop sk [] s = s"
| "setupResources_loop sk (draw # rest) s = setupResources_loop sk rest (setupResources_draw sk draw s)"

text \<open>
  \<open>setupResources\<close> returns the new \<open>pathInstanceIdx\<close>, which the model keeps in the
  flush state.
\<close>

definition setupResources ::
  "('path, 'matrix, 'atlas) Collaborators \<Rightarrow> ('path, 'matrix) SingleDraw list \<Rightarrow>
   ('path, 'matrix, 'proc) DrawPathsOp \<Rightarrow> ('path, 'matrix, 'atlas) Flush \<Rightarrow>
   ('path, 'matrix, 'proc) DrawPathsOp \<times> ('path, 'matrix, 'atlas) Flush" where
  "setupResources sk A op fl =
     (let op0 = op\<lparr>fBaseInstance := pathInstanceIdx fl\<rparr>;
          (op1, currentAtlas, fl1) = setupResources_loop sk (head_draws A op0) (op0, None, fl);
          op2 = (case currentAtlas of
                   Some cur \<Rightarrow> addAtlasBatch op1 cur (pathInstanceIdx fl1)
                 | None \<Rightarrow> op1)
      in (op2, fl1))"

definition placePathInAtlas ::
  "('path, 'matrix, 'atlas) Collaborators \<Rightarrow> 'path ClipPath \<Rightarrow> ('path, 'matrix, 'atlas) Flush \<Rightarrow>
   'path ClipPath \<times> ('path, 'matrix, 'atlas) Flush" where
  "placePathInAtlas sk clipPath fl =
     (let builder1 = atlasOpsBuilder fl @ [parseDeviceSpacePath (fDeviceSpacePath clipPath)];
          (placed, atlases', builder2) =
            placeParsedPathInAtlas sk (atlases fl) builder1 (fAccessRect clipPath)
              (fPathDevIBounds clipPath)
      in (clipPath\<lparr>fAtlas := map_option fst placed,
                   fAtlasOffset := (case placed of
                                      Some (atlas, offset) \<Rightarrow> Some offset
                                    | None \<Rightarrow> fAtlasOffset clipPath),
                   fHasAtlas := True\<rparr>,
          fl\<lparr>atlases := atlases', atlasOpsBuilder := builder2\<rparr>))"

text \<open>
  The counting pass of \<open>preFlush\<close>.
\<close>

record Counts =
  maxTotalPaths :: int
  maxPathPoints :: int
  numSkPoints :: int
  numSkVerbs :: int
  numClipPaths :: int

definition Counts_zero :: Counts where
  "Counts_zero = \<lparr>maxTotalPaths = 0, maxPathPoints = 0, numSkPoints = 0, numSkVerbs = 0,
                  numClipPaths = 0\<rparr>"

definition count_path :: "('path, 'matrix, 'atlas) Collaborators \<Rightarrow> 'path \<Rightarrow> Counts \<Rightarrow> Counts" where
  "count_path sk path c =
     c\<lparr>maxPathPoints := max (countPoints sk path) (maxPathPoints c),
       numSkPoints := numSkPoints c + countPoints sk path,
       numSkVerbs := numSkVerbs c + countVerbs_of sk path\<rparr>"

fun count_draws ::
  "('path, 'matrix, 'atlas) Collaborators \<Rightarrow> ('path, 'matrix) SingleDraw list \<Rightarrow> Counts \<Rightarrow> Counts" where
  "count_draws sk [] c = c"
| "count_draws sk (draw # rest) c =
     count_draws sk rest (count_path sk (fPath draw) (c\<lparr>maxTotalPaths := maxTotalPaths c + 1\<rparr>))"

fun count_ops ::
  "('path, 'matrix, 'atlas) Collaborators \<Rightarrow> ('path, 'matrix) SingleDraw list \<Rightarrow>
   ('path, 'matrix, 'proc) DrawPathsOp list \<Rightarrow> Counts \<Rightarrow> Counts" where
  "count_ops sk A [] c = c"
| "count_ops sk A (op # rest) c = count_ops sk A rest (count_draws sk (head_draws A op) c)"

fun count_clips ::
  "('path, 'matrix, 'atlas) Collaborators \<Rightarrow> (nat \<times> 'path ClipPath) list \<Rightarrow> Counts \<Rightarrow> Counts" where
  "count_clips sk [] c = c"
| "count_clips sk (clipsIter # rest) c =
     count_clips sk rest (count_path sk (fDeviceSpacePath (snd clipsIter)) c)"

text \<open>
  A \<open>std::map\<close> is walked in the order of its keys.
\<close>

definition in_key_order :: "(nat \<times> 'v) list \<Rightarrow> (nat \<times> 'v) list" where
  "in_key_order m = sort_key fst m"

fun count_opLists ::
  "('path, 'matrix, 'atlas) Collaborators \<Rightarrow>
   (nat \<times> ('path, 'matrix, 'proc) RTPendingPaths) list \<Rightarrow> nat list \<Rightarrow> Counts \<Rightarrow> Counts" where
  "count_opLists sk m [] c = c"
| "count_opLists sk m (opListID # rest) c =
     (case map_of m opListID of
        None \<Rightarrow> count_opLists sk m rest c
      | Some rtPendingPaths \<Rightarrow>
          let c1 = count_ops sk (fDrawsAllocator rtPendingPaths) (fDrawOps rtPendingPaths) c;
              n = int (length (fClipPaths rtPendingPaths));
              c2 = c1\<lparr>maxTotalPaths := maxTotalPaths c1 + n, numClipPaths := numClipPaths c1 + n\<rparr>
          in count_opLists sk m rest
               (count_clips sk (in_key_order (fClipPaths rtPendingPaths)) c2))"

text \<open>
  The pass that fills the instance buffer and the atlases.
\<close>

fun setup_ops ::
  "('path, 'matrix, 'atlas) Collaborators \<Rightarrow> ('path, 'matrix) SingleDraw list \<Rightarrow>
   ('path, 'matrix, 'proc) DrawPathsOp list \<Rightarrow> ('path, 'matrix, 'atlas) Flush \<Rightarrow>
   ('path, 'matrix, 'proc) DrawPathsOp list \<times> ('path, 'matrix, 'atlas) Flush" where
  "setup_ops sk A [] fl = ([], fl)"
| "setup_ops sk A (op # rest) fl =
     (let (op', fl1) = setupResources sk A op fl;
          fl2 = fl1\<lparr>skippedTotalPaths := skippedTotalPaths fl1 + fNumSkippedInstances op'\<rparr>;
          (rest', fl3) = setup_ops sk A rest fl2
      in (op' # rest', fl3))"

fun setup_clips ::
  "('path, 'matrix, 'atlas) Collaborators \<Rightarrow> (nat \<times> 'path ClipPath) list \<Rightarrow>
   ('path, 'matrix, 'atlas) Flush \<Rightarrow> (nat \<times> 'path ClipPath) list \<times> ('path, 'matrix, 'atlas) Flush" where
  "setup_clips sk [] fl = ([], fl)"
| "setup_clips sk (clipsIter # rest) fl =
     (let (clipPath', fl1) = placePathInAtlas sk (snd clipsIter) fl;
          (rest', fl2) = setup_clips sk rest fl1
      in ((fst clipsIter, clipPath') # rest', fl2))"

fun setup_opLists ::
  "('path, 'matrix, 'atlas) Collaborators \<Rightarrow> nat list \<Rightarrow>
   (nat \<times> ('path, 'matrix, 'proc) RTPendingPaths) list \<times> ('path, 'matrix, 'atlas) Flush \<Rightarrow>
   (nat \<times> ('path, 'matrix, 'proc) RTPendingPaths) list \<times> ('path, 'matrix, 'atlas) Flush" where
  "setup_opLists sk [] s = s"
| "setup_opLists sk (opListID # rest) s =
     (case s of (m, fl) \<Rightarrow>
        case map_of m opListID of
          None \<Rightarrow> setup_opLists sk rest s
        | Some rtPendingPaths \<Rightarrow>
            let (ops', fl1) = setup_ops sk (fDrawsAllocator rtPendingPaths)
                                (fDrawOps rtPendingPaths) fl;
                (clips', fl2) = setup_clips sk (in_key_order (fClipPaths rtPendingPaths)) fl1;
                rt' = rtPendingPaths\<lparr>fDrawOps := ops', fClipPaths := clips'\<rparr>
            in setup_opLists sk rest (AList.update opListID rt' m, fl2))"

text \<open>
  The last loop of \<open>preFlush\<close>: each atlas is finalized, and the atlases that yield a
  render target context are pushed on \<open>results\<close>.
\<close>

fun finalize_atlases ::
  "('path, 'matrix, 'atlas) Collaborators \<Rightarrow> 'atlas list \<Rightarrow> nat \<Rightarrow> 'atlas list \<times> nat list" where
  "finalize_atlases sk [] k = ([], [])"
| "finalize_atlases sk (atlas # rest) k =
     (let (atlas', rtc) = atlas_finalize sk atlas;
          (rest', results) = finalize_atlases sk rest (Suc k)
      in (atlas' # rest', (if rtc then [k] else []) @ results))"

text \<open>
  What \<open>preFlush\<close> leaves behind: the renderer, the contexts pushed on \<open>results\<close>,
  the lines printed with \<open>SkDebugf\<close>, and its local variables at the return.
\<close>

record ('path, 'matrix, 'proc, 'atlas) PreFlush =
  renderer :: "('path, 'matrix, 'proc, 'atlas) GrCoverageCountingPathRenderer"
  results :: "nat list"
  SkDebugf :: "string list"
  counts :: Counts
  flush :: "('path, 'matrix, 'atlas) Flush"

definition Flush_start :: "'atlas list \<Rightarrow> ('path, 'matrix, 'atlas) Flush" where
  "Flush_start perFlushAtlases =
     \<lparr>atlases = perFlushAtlases, atlasOpsBuilder = [], pathInstanceData = (\<lambda>i. None),
      pathInstanceIdx = 0, skippedTotalPaths = 0\<rparr>"

definition preFlush ::
  "('path, 'matrix, 'atlas) Collaborators \<Rightarrow>
   ('path, 'matrix, 'proc, 'atlas) GrCoverageCountingPathRenderer \<Rightarrow> nat list \<Rightarrow>
   ('path, 'matrix, 'proc, 'atlas) PreFlush" where
  "preFlush sk ccpr opListIDs =
     (let ccpr0 = ccpr\<lparr>fFlushing := True\<rparr>;
          fl0 = Flush_start (fPerFlushAtlases ccpr);
          ret = (\<lambda>r w c fl. \<lparr>renderer = r, results = [], SkDebugf = w, counts = c, flush = fl\<rparr>)
      in if fRTPendingPathsMap ccpr = [] then ret ccpr0 [] Counts_zero fl0
      else
        let ccpr1 = ccpr0\<lparr>fPerFlushResourcesAreValid := False\<rparr>;
            c = count_opLists sk (fRTPendingPathsMap ccpr) opListIDs Counts_zero
        in if maxTotalPaths c = 0 then ret ccpr1 [] c fl0
        else if \<not> FindOrMakeIndexBuffer sk
          then ret (ccpr1\<lparr>fPerFlushIndexBuffer := False\<rparr>)
                 [''WARNING: failed to allocate ccpr path index buffer.''] c fl0
        else
        let ccpr2 = ccpr1\<lparr>fPerFlushIndexBuffer := True\<rparr>
        in if \<not> FindOrMakeVertexBuffer sk
          then ret (ccpr2\<lparr>fPerFlushVertexBuffer := False\<rparr>)
                 [''WARNING: failed to allocate ccpr path vertex buffer.''] c fl0
        else
        let ccpr3 = ccpr2\<lparr>fPerFlushVertexBuffer := True\<rparr>
        in if \<not> makeBuffer sk (maxTotalPaths c * sizeof_PathInstance sk)
          then ret (ccpr3\<lparr>fPerFlushInstanceBuffer := False\<rparr>)
                 [''WARNING: failed to allocate path instance buffer. No paths will be drawn.'']
                 c fl0
        else
        let ccpr4 = ccpr3\<lparr>fPerFlushInstanceBuffer := True\<rparr>;
            (m', fl1) = setup_opLists sk opListIDs (fRTPendingPathsMap ccpr4, fl0);
            fl2 = (if atlases fl1 \<noteq> []
                   then fl1\<lparr>atlasOpsBuilder := atlasOpsBuilder fl1 @
                               [emitOp (atlas_drawBounds sk (last (atlases fl1)))]\<rparr>
                   else fl1);
            ccpr5 = ccpr4\<lparr>fRTPendingPathsMap := m', fPerFlushAtlases := atlases fl2\<rparr>
        in if \<not> builder_finalize sk (atlasOpsBuilder fl2)
          then ret ccpr5
                 [''WARNING: failed to allocate ccpr atlas buffers. No paths will be drawn.'']
                 c fl2
        else
        let (atlases', rtcs) = finalize_atlases sk (atlases fl2) 0
        in \<lparr>renderer = ccpr5\<lparr>fPerFlushAtlases := atlases', fPerFlushResourcesAreValid := True\<rparr>,
            results = rtcs, SkDebugf = [], counts = c, flush = fl2\<lparr>atlases := atlases'\<rparr>\<rparr>)"

text \<open>
  \<open>onExecute\<close>: the draws handed to the command buffer, each with the atlas it reads,
  its instance count and its base instance.
\<close>

datatype DrawCommand = DrawCommand nat int int

fun onExecute_batches ::
  "('path, 'matrix, 'atlas) Collaborators \<Rightarrow> 'atlas list \<Rightarrow> AtlasBatch list \<Rightarrow> int \<Rightarrow>
   DrawCommand list" where
  "onExecute_batches sk perFlushAtlases [] baseInstance = []"
| "onExecute_batches sk perFlushAtlases (batch # rest) baseInstance =
     (if batch_atlas batch < length perFlushAtlases \<and>
         atlas_textureProxy sk (perFlushAtlases ! batch_atlas batch)
      then [DrawCommand (batch_atlas batch) (fEndInstanceIdx batch - baseInstance) baseInstance]
      else []) @
     onExecute_batches sk perFlushAtlases rest (fEndInstanceIdx batch)"

definition onExecute ::
  "('path, 'matrix, 'atlas) Collaborators \<Rightarrow>
   ('path, 'matrix, 'proc, 'atlas) GrCoverageCountingPathRenderer \<Rightarrow>
   ('path, 'matrix, 'proc) DrawPathsOp \<Rightarrow> DrawCommand list" where
  "onExecute sk fCCPR op =
     (if \<not> fPerFlushResourcesAreValid fCCPR then []
      else onExecute_batches sk (fPerFlushAtlases fCCPR) (fAtlasBatches op) (fBaseInstance op))"

fun erase_all :: "nat list \<Rightarrow> (nat \<times> 'v) list \<Rightarrow> (nat \<times> 'v) list" where
  "erase_all [] m = m"
| "erase_all (k # ks) m = erase_all ks (AList.delete k m)"

definition postFlush ::
  "('path, 'matrix, 'proc, 'atlas) GrCoverageCountingPathRenderer \<Rightarrow> nat list \<Rightarrow>
   ('path, 'matrix, 'proc, 'atlas) GrCoverageCountingPathRenderer" where
  "postFlush ccpr opListIDs =
     ccpr\<lparr>fPerFlushAtlases := [],
          fPerFlushInstanceBuffer := False,
          fPerFlushVertexBuffer := False,
          fPerFlushIndexBuffer := False,
          fRTPendingPathsMap := erase_all opListIDs (fRTPendingPathsMap ccpr),
          fFlushing := False\<rparr>"

text \<open>
  Every chain that a flush of \<open>opListIDs\<close> walks ends, and no op of it has been set up
  before: what \<open>SkASSERT(-1 == fBaseInstance)\<close> and the debug counters stand for.
\<close>

definition chains_ok ::
  "('path, 'matrix, 'proc, 'atlas) GrCoverageCountingPathRenderer \<Rightarrow> nat list \<Rightarrow> bool" where
  "chains_ok ccpr opListIDs =
     (\<forall>opListID \<in> set opListIDs.
        case map_of (fRTPendingPathsMap ccpr) opListID of
          None \<Rightarrow> True
        | Some rt \<Rightarrow>
            \<forall>op \<in> set (fDrawOps rt).
              SingleDraws (fDrawsAllocator rt) op \<noteq> None \<and>
              fBaseInstance op = -1 \<and> fNumSkippedInstances op = 0)"

text \<open>
  The written slots of the instance buffer are the ones below \<open>pathInstanceIdx\<close>.
\<close>

definition filled :: "('path, 'matrix, 'atlas) Flush \<Rightarrow> bool" where
  "filled fl = (0 \<le> pathInstanceIdx fl \<and>
                (\<forall>i. (pathInstanceData fl i \<noteq> None) = (0 \<le> i \<and> i < pathInstanceIdx fl)))"

text \<open>
  The draws and the clip paths that a flush of \<open>opListIDs\<close> walks, counted.
\<close>

definition draws_in :: "('path, 'matrix, 'proc) RTPendingPaths \<Rightarrow> int" where
  "draws_in rt = (\<Sum>op \<leftarrow> fDrawOps rt. int (length (head_draws (fDrawsAllocator rt) op)))"

definition pending_draws ::
  "(nat \<times> ('path, 'matrix, 'proc) RTPendingPaths) list \<Rightarrow> nat list \<Rightarrow> int" where
  "pending_draws m opListIDs =
     (\<Sum>opListID \<leftarrow> opListIDs. case map_of m opListID of None \<Rightarrow> 0 | Some rt \<Rightarrow> draws_in rt)"

definition pending_clips ::
  "(nat \<times> ('path, 'matrix, 'proc) RTPendingPaths) list \<Rightarrow> nat list \<Rightarrow> int" where
  "pending_clips m opListIDs =
     (\<Sum>opListID \<leftarrow> opListIDs. case map_of m opListID of
                                   None \<Rightarrow> 0
                                 | Some rt \<Rightarrow> int (length (fClipPaths rt)))"

section \<open>Concrete inputs\<close>

text \<open>
  A small world in which the definitions can be run. A path is a rectangle, or
  \<open>None\<close> for a path with a coordinate that is not finite, on which the path
  operation fails; a matrix is a scale factor, and scaling a path beyond what a
  \<open>float\<close> holds (\<open>2 ^ 128\<close>) leaves it with coordinates that are not finite; a
  difference of scalars is rounded to the nearest multiple of \<open>1 / 128\<close>, the
  spacing of the \<open>float\<close>s from \<open>2 ^ 16\<close> to \<open>2 ^ 17\<close>; an atlas is the number of
  rectangles it holds, has room for two, and stacks them in rows of 64.
\<close>

definition round_to_128th :: "real \<Rightarrow> real" where
  "round_to_128th x = of_int (round (x * 128)) / 128"

definition scale_rect :: "real \<Rightarrow> SkRect \<Rightarrow> SkRect" where
  "scale_rect m r = MakeLTRB (m * fLeft r) (m * fTop r) (m * fRight r) (m * fBottom r)"

definition finite_rect :: "SkRect \<Rightarrow> bool" where
  "finite_rect r = (\<bar>fLeft r\<bar> < 2 ^ 128 \<and> \<bar>fTop r\<bar> < 2 ^ 128 \<and>
                    \<bar>fRight r\<bar> < 2 ^ 128 \<and> \<bar>fBottom r\<bar> < 2 ^ 128)"

definition scale_path :: "real \<Rightarrow> SkRect option \<Rightarrow> SkRect option" where
  "scale_path m p =
     (case p of
        Some r \<Rightarrow> if finite_rect (scale_rect m r) then Some (scale_rect m r) else None
      | None \<Rightarrow> None)"

definition rect_overlap :: "SkRect \<Rightarrow> SkRect \<Rightarrow> SkRect" where
  "rect_overlap a b =
     (if fLeft a < fRight b \<and> fLeft b < fRight a \<and> fTop a < fBottom b \<and> fTop b < fBottom a
      then MakeLTRB (max (fLeft a) (fLeft b)) (max (fTop a) (fTop b))
                    (min (fRight a) (fRight b)) (min (fBottom a) (fBottom b))
      else MakeLTRB 0 0 0 0)"

definition example_sk :: "(SkRect option, real, nat) Collaborators" where
  "example_sk =
     \<lparr>float_minus = (\<lambda>a b. round_to_128th (a - b)),
      Op_kIntersect = (\<lambda>a b. case (a, b) of
                          (Some x, Some y) \<Rightarrow> Some (Some (rect_overlap x y))
                        | _ \<Rightarrow> None),
      addRect = Some,
      reset = Some (MakeLTRB 0 0 0 0),
      transform = scale_path,
      setIdentity = 1,
      mapRect = scale_rect,
      getBounds = (\<lambda>p. case p of Some r \<Rightarrow> r | None \<Rightarrow> MakeLTRB 0 0 0 0),
      getFillType = (\<lambda>p. kWinding_FillType),
      getGenerationID = (\<lambda>p. 1),
      countPoints = (\<lambda>p. 4),
      countVerbs_of = (\<lambda>p. 5),
      parsePath_bounds = (\<lambda>m p. case p of Some r \<Rightarrow> (scale_rect m r, scale_rect m r)
                                          | None \<Rightarrow> (MakeLTRB 0 0 0 0, MakeLTRB 0 0 0 0)),
      GrCCPRAtlas_new = (\<lambda>w h. 0),
      atlas_addRect = (\<lambda>a w h. if a < 2 then (Suc a, Some (0, 64 * int a)) else (a, None)),
      atlas_drawBounds = (\<lambda>a. (64, 64 * int a)),
      atlas_finalize = (\<lambda>a. (a, True)),
      atlas_textureProxy = (\<lambda>a. True),
      uninitialized_location = (0, 0),
      FindOrMakeIndexBuffer = True,
      FindOrMakeVertexBuffer = True,
      makeBuffer = (\<lambda>size. True),
      sizeof_PathInstance = 64,
      builder_finalize = (\<lambda>calls. True)\<rparr>"

definition example_draw_args :: "SkRect \<Rightarrow> (SkRect option, real, nat) DrawPathArgs" where
  "example_draw_args r =
     \<lparr>fViewMatrix = 1, fShape_bounds = r, fShape_asPath = Some r,
      fClip_getConservativeBounds = MakeLTRB 0 0 100 100,
      SRGBFlagsFromPaint = 0, fPaint = 0\<rparr>"

definition example_op :: "SkRect \<Rightarrow> (SkRect option, real, nat) DrawPathsOp" where
  "example_op r = DrawPathsOp_ctor example_sk (example_draw_args r) 0xFF0000FF"

definition example_ccpr ::
  "(SkRect option, real, nat, nat) GrCoverageCountingPathRenderer" where
  "example_ccpr =
     \<lparr>fDrawCachablePaths = True, fRTPendingPathsMap = [],
      fPerFlushIndexBuffer = False, fPerFlushVertexBuffer = False,
      fPerFlushInstanceBuffer = False, fPerFlushAtlases = [],
      fPerFlushResourcesAreValid = False, fFlushing = False\<rparr>"

text \<open>
  A renderer with one render-target list pending: a draw inside its clip, a draw
  outside its clip, and a clip path.
\<close>

definition example_pending ::
  "(SkRect option, real, nat, nat) GrCoverageCountingPathRenderer" where
  "example_pending =
     example_ccpr\<lparr>fRTPendingPathsMap :=
       [(1, \<lparr>fDrawOps = [example_op (MakeLTRB 0 0 50 50), example_op (MakeLTRB 200 200 300 300)],
             fClipPaths = [(1, ClipPath_init example_sk (Some (MakeLTRB 0 0 80 80))
                                 (MakeLTRB 0 0 100 100) 1000 1000)],
             fDrawsAllocator = []\<rparr>)]\<rparr>"

definition example_args :: CanDrawPathArgs where
  "example_args =
     \<lparr>hasUnstyledKey = False, isSimpleFill = True, inverseFilled = False,
      hasPerspective = False, fAAType = kCoverage, ConicWeightCnt = 0,
      devIBounds = MakeLTRB 0 0 300 300,
      fClipConservativeBounds = MakeLTRB 0 0 1000 1000,
      countVerbs = 10\<rparr>"

section \<open>Theorems\<close>

subsection \<open>The concrete inputs\<close>

lemma example_sk_simps:
  "float_minus example_sk a' b' = round_to_128th (a' - b')"
  "Op_kIntersect example_sk (Some x) (Some y) = Some (Some (rect_overlap x y))"
  "Op_kIntersect example_sk None b = None"
  "Op_kIntersect example_sk a None = None"
  "addRect example_sk = Some"
  "reset example_sk = Some (MakeLTRB 0 0 0 0)"
  "transform example_sk = scale_path"
  "setIdentity example_sk = 1"
  "mapRect example_sk = scale_rect"
  "getBounds example_sk (Some r) = r"
  "getBounds example_sk None = MakeLTRB 0 0 0 0"
  "getFillType example_sk p = kWinding_FillType"
  "getGenerationID example_sk p = 1"
  "countPoints example_sk p = 4"
  "countVerbs_of example_sk p = 5"
  "parsePath_bounds example_sk m (Some r) = (scale_rect m r, scale_rect m r)"
  "GrCCPRAtlas_new example_sk w h = 0"
  "atlas_addRect example_sk k w h = (if k < 2 then (Suc k, Some (0, 64 * int k)) else (k, None))"
  "atlas_drawBounds example_sk k = (64, 64 * int k)"
  "atlas_finalize example_sk k = (k, True)"
  "atlas_textureProxy example_sk k = True"
  "FindOrMakeIndexBuffer example_sk = True"
  "FindOrMakeVertexBuffer example_sk = True"
  "makeBuffer example_sk n = True"
  "sizeof_PathInstance example_sk = 64"
  "builder_finalize example_sk calls = True"
  by (simp_all add: example_sk_def split: option.splits)

lemma example_op_small:
  assumes "max (SkRect_height example_sk r) (SkRect_width example_sk r) \<le> 65536"
  shows "example_op r =
     \<lparr>fSRGBFlags = 0, fProcessors = 0,
      fHeadDraw = \<lparr>fClipIBounds = MakeLTRB 0 0 100 100, fMatrix = 1,
                   fPath = Some r, fColor = 0xFF0000FF, fNext = None\<rparr>,
      fTailDraw = HeadDraw, fOwningRTPendingPaths = None, fBounds = r,
      fBaseInstance = -1, fInstanceCount = 1, fNumSkippedInstances = 0, fAtlasBatches = []\<rparr>"
proof -
  have "scale_rect 1 r = r" by (simp add: scale_rect_def MakeLTRB_def)
  moreover from assms
  have "\<not> 65536 < max (SkRect_height example_sk r) (SkRect_width example_sk r)"
    by (simp add: not_less)
  ultimately show ?thesis
    by (simp add: example_op_def DrawPathsOp_ctor_def example_draw_args_def example_sk_simps
          kPathCropThreshold_def Let_def del: max_less_iff_conj)
qed

subsection \<open>Rectangles\<close>

lemma intersect_Some_iff:
  "(intersect a b = Some c) =
     (\<not> isEmpty a \<and> \<not> isEmpty b \<and> fLeft a < fRight b \<and> fLeft b < fRight a \<and>
      fTop a < fBottom b \<and> fTop b < fBottom a \<and>
      c = MakeLTRB (max (fLeft a) (fLeft b)) (max (fTop a) (fTop b))
                   (min (fRight a) (fRight b)) (min (fBottom a) (fBottom b)))"
  by (auto simp: intersect_def)

lemma contains_intersect:
  assumes "contains a r"
  shows "intersect a r = Some r"
proof -
  from assms have "max (fLeft a) (fLeft r) = fLeft r" "max (fTop a) (fTop r) = fTop r"
    "min (fRight a) (fRight r) = fRight r" "min (fBottom a) (fBottom r) = fBottom r"
    by (simp_all add: contains_def)
  moreover from assms have "fLeft a < fRight r" "fLeft r < fRight a"
    "fTop a < fBottom r" "fTop r < fBottom a"
    by (auto simp: contains_def isEmpty_def)
  ultimately show ?thesis
    using assms by (simp add: intersect_def contains_def MakeLTRB_def)
qed

lemma intersect_within:
  assumes "intersect a b = Some c"
  shows "contains a c \<and> contains b c"
  using assms by (auto simp: intersect_Some_iff contains_def isEmpty_def MakeLTRB_def)

subsection \<open>GrAHardwareBufferImageGenerator::Make\<close>

text \<open>
  C9. \<open>Make\<close> returns an image generator if and only if the buffer's pixel format is
  one of R8G8B8A8_UNORM, R16G16B16A16_FLOAT and R5G6B5_UNORM; for every other format
  it returns null.
\<close>

theorem Make_accepts_exactly_the_whitelist:
  "(Make AHardwareBuffer_describe graphicBuffer alphaType colorSpace \<noteq> None) =
     (desc_format (AHardwareBuffer_describe graphicBuffer) \<in>
        {AHARDWAREBUFFER_FORMAT_R8G8B8A8_UNORM,
         AHARDWAREBUFFER_FORMAT_R16G16B16A16_FLOAT,
         AHARDWAREBUFFER_FORMAT_R5G6B5_UNORM})"
  by (simp add: Make_def Let_def)

theorem Make_accepts_exactly_the_whitelist_witness:
  "Make (\<lambda>b. \<lparr>desc_width = 64, desc_height = 32, desc_format = 4\<rparr>) () () () \<noteq> None \<and>
   Make (\<lambda>b. \<lparr>desc_width = 64, desc_height = 32, desc_format = 2\<rparr>) () () () = None"
  using Make_accepts_exactly_the_whitelist
          [of "\<lambda>b. \<lparr>desc_width = 64, desc_height = 32, desc_format = 4\<rparr>" "()" "()" "()"]
        Make_accepts_exactly_the_whitelist
          [of "\<lambda>b. \<lparr>desc_width = 64, desc_height = 32, desc_format = 2\<rparr>" "()" "()" "()"]
  by (simp add: AHARDWAREBUFFER_FORMAT_R8G8B8A8_UNORM_def
        AHARDWAREBUFFER_FORMAT_R16G16B16A16_FLOAT_def AHARDWAREBUFFER_FORMAT_R5G6B5_UNORM_def)

subsection \<open>onCanDrawPath\<close>

text \<open>
  A value that fits 32 bits is stored as it is; an intersection is not empty; so the
  32-bit product of the height and width of clipped bounds is their product as long
  as that is below \<open>2 ^ 31\<close>.
\<close>

lemma int32_t_id:
  assumes "- (2 ^ 31) \<le> x" and "x < 2 ^ 31"
  shows "int32_t x = x"
  using assms by (simp add: int32_t_def sint_sbintrunc' signed_take_bit_int_eq_self_iff)

lemma intersect_not_empty:
  assumes "intersect a b = Some c"
  shows "0 < width c \<and> 0 < height c"
  using assms by (auto simp: intersect_Some_iff isEmpty_def MakeLTRB_def width_def height_def)

lemma int32_t_area:
  fixes h w :: int
  assumes "0 < w" and "0 < h" and "h * w < 2 ^ 31"
  shows "int32_t (int32_t h * int32_t w) = h * w"
proof -
  from assms have "h * 1 \<le> h * w" and "1 * w \<le> h * w"
    by (simp_all add: mult_left_mono mult_right_mono)
  with assms have "h < 2 ^ 31" and "w < 2 ^ 31" by linarith+
  with assms have "int32_t h = h" and "int32_t w = w" by (simp_all add: int32_t_id)
  from assms have "0 < h * w" by simp
  moreover have "(0::int) \<le> 2 ^ 31" by simp
  ultimately have "- (2 ^ 31) \<le> h * w" by linarith
  then have "int32_t (h * w) = h * w" using assms(3) by (rule int32_t_id)
  with \<open>int32_t h = h\<close> \<open>int32_t w = w\<close> show ?thesis by simp
qed

text \<open>
  Past that the product wraps: clipped bounds of 65536 by 65536 pixels have the 32-bit
  area 0, and the path is answered "yes".
\<close>

lemma onCanDrawPath_area_wraps:
  "intersect (MakeLTRB 0 0 65536 65536) (MakeLTRB 0 0 65536 65536) =
     Some (MakeLTRB 0 0 65536 65536) \<and>
   height (MakeLTRB 0 0 65536 65536 :: SkIRect) * width (MakeLTRB 0 0 65536 65536 :: SkIRect)
     > 256 * 256 \<and>
   onCanDrawPath True
     (example_args\<lparr>devIBounds := MakeLTRB 0 0 65536 65536,
                   fClipConservativeBounds := MakeLTRB 0 0 65536 65536\<rparr>) = kYes"
  by (simp add: example_args_def onCanDrawPath_def intersect_def isEmpty_def MakeLTRB_def
        height_def width_def int32_t_def)

text \<open>
  C8, as amended. For a path that passes every guard of \<open>onCanDrawPath\<close> (its shape
  has no unstyled key or the renderer draws cachable paths, simple fill, not inverse
  filled, no perspective, coverage AA, no conic weights) and whose rounded-out device
  bounds intersect the clip in bounds whose height times width is below \<open>2 ^ 31\<close>, so
  that the 32-bit product of the source is exact: the answer is "as backup" exactly
  when the clipped bounds have height times width above 256 * 256, or the shape has an
  unstyled key and the path has more than 50 verbs; otherwise the answer is "yes".
\<close>

theorem onCanDrawPath_backup_iff_large_or_complex:
  assumes "\<not> (hasUnstyledKey args \<and> \<not> drawCachablePaths)"
    and "isSimpleFill args" and "\<not> inverseFilled args" and "\<not> hasPerspective args"
    and "fAAType args = kCoverage" and "ConicWeightCnt args = 0"
    and "intersect (devIBounds args) (fClipConservativeBounds args) = Some clipped"
    and "height clipped * width clipped < 2 ^ 31"
  shows "onCanDrawPath drawCachablePaths args =
           (if height clipped * width clipped > 256 * 256 \<or>
               (hasUnstyledKey args \<and> countVerbs args > 50)
            then kAsBackup else kYes)"
proof -
  from assms(7) have "0 < width clipped" "0 < height clipped"
    by (simp_all add: intersect_not_empty)
  with assms(8)
  have "int32_t (int32_t (height clipped) * int32_t (width clipped)) =
          height clipped * width clipped"
    by (simp add: int32_t_area)
  with assms show ?thesis by (auto simp: onCanDrawPath_def)
qed

theorem onCanDrawPath_backup_iff_large_or_complex_witness:
  "onCanDrawPath True example_args = kAsBackup \<and>
   onCanDrawPath True (example_args\<lparr>devIBounds := MakeLTRB 0 0 200 200\<rparr>) = kYes \<and>
   onCanDrawPath True (example_args\<lparr>devIBounds := MakeLTRB 0 0 200 200, hasUnstyledKey := True,
                                    countVerbs := 51\<rparr>) = kAsBackup"
  using onCanDrawPath_backup_iff_large_or_complex
          [of example_args True "MakeLTRB 0 0 300 300"]
        onCanDrawPath_backup_iff_large_or_complex
          [of "example_args\<lparr>devIBounds := MakeLTRB 0 0 200 200\<rparr>" True "MakeLTRB 0 0 200 200"]
        onCanDrawPath_backup_iff_large_or_complex
          [of "example_args\<lparr>devIBounds := MakeLTRB 0 0 200 200, hasUnstyledKey := True,
                            countVerbs := 51\<rparr>" True "MakeLTRB 0 0 200 200"]
  by (simp add: example_args_def intersect_def isEmpty_def MakeLTRB_def height_def width_def)

text \<open>
  The claim as it stands fails: a shape with an unstyled key and 60 verbs is simple
  fill, without perspective or conic weights, drawn with coverage AA and inside its
  clip, so the claim has it answered "as backup"; with \<open>drawCachablePaths\<close> off the
  first guard answers "no".
\<close>

theorem onCanDrawPath_backup_counterexample:
  "isSimpleFill (example_args\<lparr>hasUnstyledKey := True, countVerbs := 60\<rparr>) \<and>
   \<not> hasPerspective (example_args\<lparr>hasUnstyledKey := True, countVerbs := 60\<rparr>) \<and>
   ConicWeightCnt (example_args\<lparr>hasUnstyledKey := True, countVerbs := 60\<rparr>) = 0 \<and>
   fAAType (example_args\<lparr>hasUnstyledKey := True, countVerbs := 60\<rparr>) = kCoverage \<and>
   intersect (devIBounds (example_args\<lparr>hasUnstyledKey := True, countVerbs := 60\<rparr>))
     (fClipConservativeBounds (example_args\<lparr>hasUnstyledKey := True, countVerbs := 60\<rparr>)) \<noteq> None \<and>
   hasUnstyledKey (example_args\<lparr>hasUnstyledKey := True, countVerbs := 60\<rparr>) \<and>
   countVerbs (example_args\<lparr>hasUnstyledKey := True, countVerbs := 60\<rparr>) > 50 \<and>
   onCanDrawPath False (example_args\<lparr>hasUnstyledKey := True, countVerbs := 60\<rparr>) = kNo"
  by (simp add: example_args_def onCanDrawPath_def intersect_def isEmpty_def MakeLTRB_def)

text \<open>
  C10, as amended. For a path that passes every guard of \<open>onCanDrawPath\<close> and whose
  rounded-out device bounds do not intersect the clip, the answer is "yes", whatever
  the size of its bounds and the number of its verbs.
\<close>

theorem onCanDrawPath_clipped_away_is_yes:
  assumes "\<not> (hasUnstyledKey args \<and> \<not> drawCachablePaths)"
    and "isSimpleFill args" and "\<not> inverseFilled args" and "\<not> hasPerspective args"
    and "fAAType args = kCoverage" and "ConicWeightCnt args = 0"
    and "intersect (devIBounds args) (fClipConservativeBounds args) = None"
  shows "onCanDrawPath drawCachablePaths args = kYes"
  using assms by (auto simp: onCanDrawPath_def)

theorem onCanDrawPath_clipped_away_is_yes_witness:
  "height (MakeLTRB 2000 2000 3000 3000 :: SkIRect) * width (MakeLTRB 2000 2000 3000 3000 :: SkIRect)
     > 256 * 256 \<and>
   onCanDrawPath True (example_args\<lparr>devIBounds := MakeLTRB 2000 2000 3000 3000,
                                    hasUnstyledKey := True, countVerbs := 100\<rparr>) = kYes"
  using onCanDrawPath_clipped_away_is_yes
          [of "example_args\<lparr>devIBounds := MakeLTRB 2000 2000 3000 3000,
                            hasUnstyledKey := True, countVerbs := 100\<rparr>" True]
  by (simp add: example_args_def intersect_def isEmpty_def MakeLTRB_def height_def width_def)

text \<open>
  The claim as it stands fails: a path with perspective whose bounds lie outside the
  clip is answered "no" by the second guard, before the clip is looked at.
\<close>

theorem onCanDrawPath_clipped_away_counterexample:
  "intersect (devIBounds (example_args\<lparr>devIBounds := MakeLTRB 2000 2000 3000 3000,
                                        hasPerspective := True\<rparr>))
     (fClipConservativeBounds (example_args\<lparr>devIBounds := MakeLTRB 2000 2000 3000 3000,
                                            hasPerspective := True\<rparr>)) = None \<and>
   onCanDrawPath True (example_args\<lparr>devIBounds := MakeLTRB 2000 2000 3000 3000,
                                    hasPerspective := True\<rparr>) = kNo"
  by (simp add: example_args_def onCanDrawPath_def intersect_def isEmpty_def MakeLTRB_def)

subsection \<open>crop_path\<close>

text \<open>
  C4. When the path operation that \<open>crop_path\<close> calls fails, the output path is the
  empty path, and \<open>crop_path\<close> has no failure of its own to report (it is a total
  function to paths); when the operation succeeds, the output is its result, the
  intersection of the crop rectangle's path with the input path.
\<close>

theorem crop_path_result:
  "(Op_kIntersect sk (addRect sk (SkRect_Make cropbox)) path = None \<longrightarrow>
      crop_path sk path cropbox = reset sk) \<and>
   (\<forall>out. Op_kIntersect sk (addRect sk (SkRect_Make cropbox)) path = Some out \<longrightarrow>
      crop_path sk path cropbox = out)"
  by (simp add: crop_path_def)

theorem crop_path_result_witness:
  "Op_kIntersect example_sk (addRect example_sk (SkRect_Make (MakeLTRB 0 0 100 100))) None = None \<and>
   crop_path example_sk None (MakeLTRB 0 0 100 100) = reset example_sk \<and>
   Op_kIntersect example_sk (addRect example_sk (SkRect_Make (MakeLTRB 0 0 100 100)))
     (Some (MakeLTRB 50 50 200000 60)) = Some (Some (MakeLTRB 50 50 100 60)) \<and>
   crop_path example_sk (Some (MakeLTRB 50 50 200000 60)) (MakeLTRB 0 0 100 100) =
     Some (MakeLTRB 50 50 100 60)"
  using crop_path_result[of example_sk "MakeLTRB 0 0 100 100" None]
        crop_path_result[of example_sk "MakeLTRB 0 0 100 100" "Some (MakeLTRB 50 50 200000 60)"]
  by (simp add: example_sk_simps crop_path_def SkRect_Make_def MakeLTRB_def rect_overlap_def)

subsection \<open>The DrawPathsOp constructor\<close>

text \<open>
  C3, as amended. When the larger of the height and the width of the shape's mapped
  bounds, each as the single-precision subtraction of the source gives it, exceeds
  \<open>2 ^ 16\<close>, the stored matrix is the identity and the stored path is what
  \<open>crop_path\<close> makes of the transformed path and the clip bounds: the intersection
  when the path operation succeeds, the empty path when it fails. Either way its
  bounds are no wider and no higher than the clip bounds, provided the path operation
  keeps an intersection within the crop rectangle, the empty path has empty bounds,
  and the clip bounds are sorted. Otherwise the stored path and matrix are the shape's
  path and the view matrix.
\<close>

theorem DrawPathsOp_ctor_crops_large_paths:
  assumes op_bounds: "\<And>b c. Op_kIntersect sk (addRect sk (SkRect_Make (fClip_getConservativeBounds args))) b = Some c \<Longrightarrow>
                        width (getBounds sk c) \<le> of_int (width (fClip_getConservativeBounds args)) \<and>
                        height (getBounds sk c) \<le> of_int (height (fClip_getConservativeBounds args))"
    and empty_bounds: "getBounds sk (reset sk) = MakeLTRB 0 0 0 0"
    and sorted_clip: "fLeft (fClip_getConservativeBounds args) \<le> fRight (fClip_getConservativeBounds args)"
                     "fTop (fClip_getConservativeBounds args) \<le> fBottom (fClip_getConservativeBounds args)"
  shows "if max (SkRect_height sk (mapRect sk (fViewMatrix args) (fShape_bounds args)))
                (SkRect_width sk (mapRect sk (fViewMatrix args) (fShape_bounds args))) > 2 ^ 16
         then fMatrix (fHeadDraw (DrawPathsOp_ctor sk args color)) = setIdentity sk \<and>
              fPath (fHeadDraw (DrawPathsOp_ctor sk args color)) =
                (case Op_kIntersect sk (addRect sk (SkRect_Make (fClip_getConservativeBounds args)))
                        (transform sk (fViewMatrix args) (fShape_asPath args)) of
                   Some intersection \<Rightarrow> intersection
                 | None \<Rightarrow> reset sk) \<and>
              width (getBounds sk (fPath (fHeadDraw (DrawPathsOp_ctor sk args color))))
                \<le> of_int (width (fClip_getConservativeBounds args)) \<and>
              height (getBounds sk (fPath (fHeadDraw (DrawPathsOp_ctor sk args color))))
                \<le> of_int (height (fClip_getConservativeBounds args))
         else fMatrix (fHeadDraw (DrawPathsOp_ctor sk args color)) = fViewMatrix args \<and>
              fPath (fHeadDraw (DrawPathsOp_ctor sk args color)) = fShape_asPath args"
proof -
  define devBounds where "devBounds = mapRect sk (fViewMatrix args) (fShape_bounds args)"
  define clip where "clip = fClip_getConservativeBounds args"
  define draw where "draw = fHeadDraw (DrawPathsOp_ctor sk args color)"
  let ?p = "transform sk (fViewMatrix args) (fShape_asPath args)"
  show ?thesis
  proof (cases "max (SkRect_height sk devBounds) (SkRect_width sk devBounds) > 2 ^ 16")
    case False
    then show ?thesis
      by (simp add: devBounds_def DrawPathsOp_ctor_def Let_def kPathCropThreshold_def)
  next
    case True
    then have d: "draw = \<lparr>fClipIBounds = clip, fMatrix = setIdentity sk,
        fPath = crop_path sk ?p clip, fColor = color, fNext = None\<rparr>"
      by (simp add: draw_def devBounds_def clip_def DrawPathsOp_ctor_def Let_def kPathCropThreshold_def)
    have "width (getBounds sk (crop_path sk ?p clip)) \<le> of_int (width clip) \<and>
          height (getBounds sk (crop_path sk ?p clip)) \<le> of_int (height clip)"
    proof (cases "Op_kIntersect sk (addRect sk (SkRect_Make clip)) ?p")
      case None
      then have "crop_path sk ?p clip = reset sk" by (simp add: crop_path_def)
      with empty_bounds sorted_clip show ?thesis
        by (simp add: MakeLTRB_def width_def height_def clip_def)
    next
      case (Some c)
      then have "crop_path sk ?p clip = c" by (simp add: crop_path_def)
      with op_bounds[OF Some[unfolded clip_def]] show ?thesis by (simp add: clip_def)
    qed
    with True d show ?thesis
      unfolding draw_def devBounds_def clip_def by (simp add: crop_path_def)
  qed
qed

text \<open>
  Two draws with the clip bounds \<open>(0, 0, 100, 100)\<close>. A shape 200000 wide is cropped
  to the clip. A shape with the bounds \<open>(- 1 / 2048, 0, 32768, 5)\<close> under a view matrix
  that scales by 2 has the device bounds \<open>(- 1 / 1024, 0, 65536, 10)\<close>, wider than
  \<open>2 ^ 16\<close> by \<open>1 / 1024\<close>; the subtraction rounds the width to \<open>2 ^ 16\<close>, which does
  not exceed the threshold, and the path and the matrix are stored as they came.
\<close>

theorem DrawPathsOp_ctor_crops_large_paths_witness:
  "max (SkRect_height example_sk
          (mapRect example_sk (fViewMatrix (example_draw_args (MakeLTRB 50 50 200050 60)))
             (fShape_bounds (example_draw_args (MakeLTRB 50 50 200050 60)))))
       (SkRect_width example_sk
          (mapRect example_sk (fViewMatrix (example_draw_args (MakeLTRB 50 50 200050 60)))
             (fShape_bounds (example_draw_args (MakeLTRB 50 50 200050 60))))) > 2 ^ 16 \<and>
   fMatrix (fHeadDraw (example_op (MakeLTRB 50 50 200050 60))) = 1 \<and>
   fPath (fHeadDraw (example_op (MakeLTRB 50 50 200050 60))) = Some (MakeLTRB 50 50 100 60) \<and>
   width (getBounds example_sk (fPath (fHeadDraw (example_op (MakeLTRB 50 50 200050 60))))) \<le> 100 \<and>
   mapRect example_sk 2 (MakeLTRB (- 1 / 2048) 0 32768 5) = MakeLTRB (- 1 / 1024) 0 65536 10 \<and>
   width (mapRect example_sk 2 (MakeLTRB (- 1 / 2048) 0 32768 5)) > 2 ^ 16 \<and>
   SkRect_width example_sk (mapRect example_sk 2 (MakeLTRB (- 1 / 2048) 0 32768 5)) = 2 ^ 16 \<and>
   SkRect_height example_sk (mapRect example_sk 2 (MakeLTRB (- 1 / 2048) 0 32768 5)) = 10 \<and>
   fMatrix (fHeadDraw (DrawPathsOp_ctor example_sk
      ((example_draw_args (MakeLTRB (- 1 / 2048) 0 32768 5))\<lparr>fViewMatrix := 2\<rparr>) 0xFF0000FF)) = 2 \<and>
   fPath (fHeadDraw (DrawPathsOp_ctor example_sk
      ((example_draw_args (MakeLTRB (- 1 / 2048) 0 32768 5))\<lparr>fViewMatrix := 2\<rparr>) 0xFF0000FF)) =
     Some (MakeLTRB (- 1 / 2048) 0 32768 5)"
proof -
  have c1: "\<And>r m b c. Op_kIntersect example_sk (addRect example_sk (SkRect_Make
                (fClip_getConservativeBounds ((example_draw_args r)\<lparr>fViewMatrix := m\<rparr>)))) b = Some c \<Longrightarrow>
              width (getBounds example_sk c)
                \<le> of_int (width (fClip_getConservativeBounds ((example_draw_args r)\<lparr>fViewMatrix := m\<rparr>))) \<and>
              height (getBounds example_sk c)
                \<le> of_int (height (fClip_getConservativeBounds ((example_draw_args r)\<lparr>fViewMatrix := m\<rparr>)))"
    by (auto simp: example_sk_def example_draw_args_def rect_overlap_def SkRect_Make_def
          MakeLTRB_def width_def height_def split: option.splits if_splits)
  have c3: "getBounds example_sk (reset example_sk) = MakeLTRB 0 0 0 0"
    by (simp add: example_sk_simps)
  have c4: "\<And>r m. fLeft (fClip_getConservativeBounds ((example_draw_args r)\<lparr>fViewMatrix := m\<rparr>))
              \<le> fRight (fClip_getConservativeBounds ((example_draw_args r)\<lparr>fViewMatrix := m\<rparr>))"
    "\<And>r m. fTop (fClip_getConservativeBounds ((example_draw_args r)\<lparr>fViewMatrix := m\<rparr>))
              \<le> fBottom (fClip_getConservativeBounds ((example_draw_args r)\<lparr>fViewMatrix := m\<rparr>))"
    by (simp_all add: example_draw_args_def MakeLTRB_def)
  have r1: "round_to_128th 200000 = 200000" "round_to_128th 10 = 10"
    and r2: "round_to_128th (67108865 / 1024) = 65536"
    by (simp_all add: round_to_128th_def round_def)
  from DrawPathsOp_ctor_crops_large_paths
         [where sk = example_sk and color = "0xFF0000FF"
            and args = "(example_draw_args (MakeLTRB 50 50 200050 60))\<lparr>fViewMatrix := 1\<rparr>",
          OF c1[where r = "MakeLTRB 50 50 200050 60" and m = 1] c3
             c4[where r = "MakeLTRB 50 50 200050 60" and m = 1],
          where b = "\<lambda>b c. b"]
       DrawPathsOp_ctor_crops_large_paths
         [where sk = example_sk and color = "0xFF0000FF"
            and args = "(example_draw_args (MakeLTRB (- 1 / 2048) 0 32768 5))\<lparr>fViewMatrix := 2\<rparr>",
          OF c1[where r = "MakeLTRB (- 1 / 2048) 0 32768 5" and m = 2] c3
             c4[where r = "MakeLTRB (- 1 / 2048) 0 32768 5" and m = 2],
          where b = "\<lambda>b c. b"]
  show ?thesis
    by (simp add: example_op_def example_sk_simps example_draw_args_def scale_rect_def
          scale_path_def finite_rect_def SkRect_Make_def MakeLTRB_def rect_overlap_def
          width_def height_def SkRect_width_def SkRect_height_def r1 r2)
qed

text \<open>
  The claim as it stands fails where the path operation fails: a view matrix that
  scales a square of side 100 by \<open>2 ^ 125\<close> gives bounds far wider than \<open>2 ^ 16\<close>,
  so the path is cropped; the transformed path has coordinates that are not finite,
  the path operation fails, and the stored path is the empty path and not an
  intersection.
\<close>

theorem DrawPathsOp_ctor_counterexample:
  "max (height (mapRect example_sk (2 ^ 125) (MakeLTRB 0 0 100 100)))
       (width (mapRect example_sk (2 ^ 125) (MakeLTRB 0 0 100 100))) > 2 ^ 16 \<and>
   max (SkRect_height example_sk (mapRect example_sk (2 ^ 125) (MakeLTRB 0 0 100 100)))
       (SkRect_width example_sk (mapRect example_sk (2 ^ 125) (MakeLTRB 0 0 100 100))) > 2 ^ 16 \<and>
   Op_kIntersect example_sk (addRect example_sk (SkRect_Make (MakeLTRB 0 0 100 100)))
       (transform example_sk (2 ^ 125) (Some (MakeLTRB 0 0 100 100))) \<noteq>
     Some (fPath (fHeadDraw (DrawPathsOp_ctor example_sk
        ((example_draw_args (MakeLTRB 0 0 100 100))\<lparr>fViewMatrix := 2 ^ 125\<rparr>) 0xFF0000FF))) \<and>
   fPath (fHeadDraw (DrawPathsOp_ctor example_sk
        ((example_draw_args (MakeLTRB 0 0 100 100))\<lparr>fViewMatrix := 2 ^ 125\<rparr>) 0xFF0000FF)) =
     reset example_sk"
  by (simp add: DrawPathsOp_ctor_def crop_path_def example_sk_simps example_draw_args_def
        scale_rect_def scale_path_def finite_rect_def SkRect_Make_def MakeLTRB_def
        kPathCropThreshold_def width_def height_def SkRect_width_def SkRect_height_def
        round_to_128th_def)

subsection \<open>onCombineIfPossible\<close>

lemma chain_in_range: "chain A p js \<Longrightarrow> set js \<subseteq> {..<length A}"
  by (induction js arbitrary: p) auto

lemma chain_append_alloc: "chain A p js \<Longrightarrow> chain (A @ B) p js"
  by (induction js arbitrary: p) (auto simp: nth_append)

lemma chain_update_other: "t \<notin> set js \<Longrightarrow> chain A p js \<Longrightarrow> chain (A[t := v]) p js"
  by (induction js arbitrary: p) auto

lemma chain_link_last:
  assumes "chain A p xs" and "xs \<noteq> []" and "distinct xs"
    and "chain (A[last xs := (A ! last xs)\<lparr>fNext := q\<rparr>]) q zs"
  shows "chain (A[last xs := (A ! last xs)\<lparr>fNext := q\<rparr>]) p (xs @ zs)"
  using assms
proof (induction xs arbitrary: p)
  case Nil
  then show ?case by simp
next
  case (Cons i xs)
  show ?case
  proof (cases "xs = []")
    case True
    with Cons.prems show ?thesis by simp
  next
    case False
    with Cons.prems have "i \<noteq> last xs" by auto
    with Cons False show ?thesis by simp
  qed
qed

lemma follow_chain:
  "chain A p js \<Longrightarrow> length js \<le> n \<Longrightarrow> follow n A p = Some (map ((!) A) js)"
proof (induction js arbitrary: p n)
  case Nil
  then show ?case by simp
next
  case (Cons i js)
  then obtain m where "n = Suc m" by (cases n) auto
  with Cons show ?case by simp
qed

lemma chain_length:
  assumes "chain A p js" and "distinct js"
  shows "length js \<le> length A"
proof -
  have "card (set js) \<le> card {..<length A}"
    using chain_in_range[OF assms(1)] by (intro card_mono) auto
  with assms(2) show ?thesis by (simp add: distinct_card)
qed

lemma chain_unique: "chain A p js \<Longrightarrow> chain A p ks \<Longrightarrow> js = ks"
proof (induction js arbitrary: p ks)
  case Nil
  then show ?case by (cases ks) auto
next
  case (Cons i js)
  then show ?case by (cases ks) auto
qed

lemma chain_suffix: "chain A p (us @ vs) \<Longrightarrow> \<exists>q. chain A q vs"
  by (induction us arbitrary: p) auto

lemma chain_distinct: "chain A p js \<Longrightarrow> distinct js"
proof (induction js arbitrary: p)
  case Nil
  then show ?case by simp
next
  case (Cons i js)
  have "i \<notin> set js"
  proof
    assume "i \<in> set js"
    then obtain us vs where js: "js = us @ i # vs" by (auto simp: in_set_conv_decomp)
    from Cons.prems have tl: "chain A (fNext (A ! i)) js" by simp
    with js have "chain A (fNext (A ! i)) (us @ i # vs)" by simp
    then obtain q where "chain A q (i # vs)" using chain_suffix by blast
    then have "chain A (fNext (A ! i)) vs" by simp
    with tl have "js = vs" by (rule chain_unique)
    with js show False by simp
  qed
  with Cons show ?case by auto
qed

lemma owns_SingleDraws:
  assumes "owns A op js"
  shows "SingleDraws A op = Some (fHeadDraw op # map ((!) A) js)"
proof -
  from assms have c: "chain A (fNext (fHeadDraw op)) js"
    by (simp add: owns_def)
  then have d: "distinct js" by (rule chain_distinct)
  from c d have "length js \<le> length A" by (rule chain_length)
  with c show ?thesis by (simp add: SingleDraws_def follow_chain)
qed

lemma payload_fNext [simp]: "payload (d\<lparr>fNext := q\<rparr>) = payload d"
  by (simp add: payload_def)

lemma owns_after_combine:
  assumes a1: "owns A this xs" and a2: "owns A that ys" and disj: "set xs \<inter> set ys = {}"
    and A1: "set_tail_next this (A @ [fHeadDraw that]) (length A) = (this1, A1)"
  shows "chain A1 (fNext (fHeadDraw this1)) (xs @ length A # ys) \<and>
         distinct (xs @ length A # ys) \<and>
         payload (fHeadDraw this1) = payload (fHeadDraw this) \<and>
         this1\<lparr>fHeadDraw := fHeadDraw this\<rparr> = this \<and>
         length A1 = Suc (length A) \<and>
         map payload (map ((!) A1) (xs @ length A # ys)) =
           map payload (map ((!) A) xs) @ payload (fHeadDraw that) # map payload (map ((!) A) ys)"
proof -
  let ?n = "length A" and ?B = "A @ [fHeadDraw that]"
  from a1 have cx: "chain A (fNext (fHeadDraw this)) xs"
    and tx: "fTailDraw this = (if xs = [] then HeadDraw else Allocated (last xs))"
    by (simp_all add: owns_def)
  from a2 have cy: "chain A (fNext (fHeadDraw that)) ys"
    by (simp add: owns_def)
  from cx cy have dx: "distinct xs" and dy: "distinct ys"
    by (auto dest: chain_distinct)
  have rx: "set xs \<subseteq> {..<?n}" and ry: "set ys \<subseteq> {..<?n}"
    using cx cy by (auto dest: chain_in_range)
  then have nx: "?n \<notin> set xs" and ny: "?n \<notin> set ys" by auto
  have dist: "distinct (xs @ length A # ys)" using dx dy disj nx ny by auto
  have cBy: "chain ?B (Some ?n) (?n # ys)"
    using chain_append_alloc[OF cy, of "[fHeadDraw that]"] by simp
  have cBx: "chain ?B (fNext (fHeadDraw this)) xs"
    using cx by (rule chain_append_alloc)
  show ?thesis
  proof (cases "xs = []")
    case True
    with tx A1 have "this1 = this\<lparr>fHeadDraw := (fHeadDraw this)\<lparr>fNext := Some ?n\<rparr>\<rparr>" "A1 = ?B"
      by (auto simp: set_tail_next_def)
    moreover have "map payload (map ((!) ?B) ys) = map payload (map ((!) A) ys)"
      using ry by (auto simp: nth_append)
    ultimately show ?thesis
      using True cBy dist by simp
  next
    case False
    let ?t = "last xs"
    from False tx A1 have eq: "this1 = this" "A1 = ?B[?t := (?B ! ?t)\<lparr>fNext := Some ?n\<rparr>]"
      by (auto simp: set_tail_next_def)
    from False rx have tn: "?t < ?n" using last_in_set by fastforce
    have "?t \<in> set xs" using False by (rule last_in_set)
    with disj tn have ty: "?t \<notin> set (?n # ys)" by auto
    have "chain A1 (Some ?n) (?n # ys)"
      unfolding eq using ty cBy by (rule chain_update_other)
    with cBx False dx have c1: "chain A1 (fNext (fHeadDraw this)) (xs @ ?n # ys)"
      unfolding eq by (intro chain_link_last)
    have px: "map payload (map ((!) A1) xs) = map payload (map ((!) A) xs)"
      unfolding eq using rx tn
      by (auto simp: nth_append nth_list_update)
    have py: "map payload (map ((!) A1) ys) = map payload (map ((!) A) ys)"
      unfolding eq using ry ty tn by (auto simp: nth_append nth_list_update)
    have pn: "payload (A1 ! ?n) = payload (fHeadDraw that)"
      unfolding eq using tn by (simp add: nth_list_update)
    show ?thesis
      using c1 px py pn eq dist by simp
  qed
qed

text \<open>
  C5. \<open>onCombineIfPossible\<close> succeeds if and only if the two ops have the same fill
  type, the same SRGB flags and the same processors. When it succeeds, and the two ops
  own separate chains of the allocator, the draws of \<open>this\<close> afterwards are its draws
  before followed by the draws of \<open>that\<close>, each in their order; the bounds are joined;
  the instance count of \<open>that\<close> is added to the one of \<open>this\<close> and then set to zero.
  When it fails nothing changes.
\<close>

theorem onCombineIfPossible_merges:
  assumes a1: "owns A this xs" and a2: "owns A that ys" and disj: "set xs \<inter> set ys = {}"
  shows "case onCombineIfPossible sk this that A of
           (ok, this', that', A') \<Rightarrow>
             ok = (op_getFillType sk this = op_getFillType sk that \<and>
                   fSRGBFlags this = fSRGBFlags that \<and>
                   fProcessors this = fProcessors that) \<and>
             (if ok
              then owns A' this' (xs @ length A # ys) \<and>
                   (\<exists>ds dt. SingleDraws A this = Some ds \<and> SingleDraws A that = Some dt \<and>
                      map_option (map payload) (SingleDraws A' this') =
                        Some (map payload ds @ map payload dt)) \<and>
                   fBounds this' = joinBounds (fBounds this) (fBounds that) \<and>
                   fInstanceCount this' = fInstanceCount this + fInstanceCount that \<and>
                   fInstanceCount that' = 0
              else this' = this \<and> that' = that \<and> A' = A)"
proof (cases "op_getFillType sk this = op_getFillType sk that \<and>
              fSRGBFlags this = fSRGBFlags that \<and> fProcessors this = fProcessors that")
  case False
  then show ?thesis by (auto simp: onCombineIfPossible_def)
next
  case True
  obtain this1 A1 where st: "set_tail_next this (A @ [fHeadDraw that]) (length A) = (this1, A1)"
    by (cases "set_tail_next this (A @ [fHeadDraw that]) (length A)")
  define this4 where "this4 = this1\<lparr>fTailDraw :=
      (if fTailDraw that = HeadDraw then Allocated (length A) else fTailDraw that),
      fBounds := joinBounds (fBounds this1) (fBounds that),
      fInstanceCount := fInstanceCount this1 + fInstanceCount that\<rparr>"
  from True st have res: "onCombineIfPossible sk this that A =
      (True, this4, that\<lparr>fInstanceCount := 0\<rparr>, A1)"
    by (simp add: onCombineIfPossible_def Let_def this4_def)
  note k = owns_after_combine[OF a1 a2 disj st]
  from k have frame: "fBounds this1 = fBounds this" "fInstanceCount this1 = fInstanceCount this"
    by (metis DrawPathsOp.select_convs DrawPathsOp.surjective DrawPathsOp.update_convs(3))+
  from a2 have ty: "fTailDraw that = (if ys = [] then HeadDraw else Allocated (last ys))"
    by (simp add: owns_def)
  have own4: "owns A1 this4 (xs @ length A # ys)"
    using k ty by (simp add: owns_def this4_def)
  have sd4: "SingleDraws A1 this4 = Some (fHeadDraw this4 # map ((!) A1) (xs @ length A # ys))"
    using own4 by (rule owns_SingleDraws)
  have "map_option (map payload) (SingleDraws A1 this4) =
          Some (map payload (fHeadDraw this # map ((!) A) xs) @
                map payload (fHeadDraw that # map ((!) A) ys))"
    unfolding sd4 using k by (simp add: this4_def)
  with owns_SingleDraws[OF a1] owns_SingleDraws[OF a2] own4 frame True
  show ?thesis unfolding res by (simp add: this4_def)
qed

theorem onCombineIfPossible_merges_witness:
  "owns [] (example_op (MakeLTRB 0 0 10 10)) [] \<and>
   owns [] (example_op (MakeLTRB 20 20 30 30)) [] \<and>
   (case onCombineIfPossible example_sk (example_op (MakeLTRB 0 0 10 10))
           (example_op (MakeLTRB 20 20 30 30)) [] of
      (ok, this', that', A') \<Rightarrow>
        ok \<and> owns A' this' [0] \<and>
        map_option (map fPath) (SingleDraws A' this') =
          Some [Some (MakeLTRB 0 0 10 10), Some (MakeLTRB 20 20 30 30)] \<and>
        fBounds this' = MakeLTRB 0 0 30 30 \<and>
        fInstanceCount this' = 2 \<and> fInstanceCount that' = 0 \<and>
        (case onCombineIfPossible example_sk this' (example_op (MakeLTRB 40 40 50 50)) A' of
           (ok2, this2, that2, A2) \<Rightarrow>
             ok2 \<and> owns A2 this2 [0, 1] \<and>
             map_option (map fPath) (SingleDraws A2 this2) =
               Some [Some (MakeLTRB 0 0 10 10), Some (MakeLTRB 20 20 30 30),
                     Some (MakeLTRB 40 40 50 50)] \<and>
             fInstanceCount this2 = 3 \<and> fInstanceCount that2 = 0))"
proof -
  have o1: "owns [] (example_op (MakeLTRB 0 0 10 10)) []"
    and o2: "owns [] (example_op (MakeLTRB 20 20 30 30)) []"
    by (simp_all add: owns_def example_op_small example_sk_simps SkRect_width_def
          SkRect_height_def round_to_128th_def MakeLTRB_def)
  have d: "set ([]::nat list) \<inter> set [] = {}" by simp
  from onCombineIfPossible_merges[OF o1 o2 d, of example_sk] o1 o2
  show ?thesis
    by (simp add: onCombineIfPossible_def set_tail_next_def owns_def SingleDraws_def
          example_op_small example_sk_simps op_getFillType_def joinBounds_def
          SkRect_width_def SkRect_height_def round_to_128th_def
          MakeLTRB_def width_def height_def Let_def)
qed

subsection \<open>makeClipProcessor\<close>

lemma ClipPath_init_sel:
  "fPathDevIBounds (ClipPath_init sk path accessRect w h) = roundOut (getBounds sk path)"
  "fAccessRect (ClipPath_init sk path accessRect w h) = accessRect"
  by (simp_all add: ClipPath_init_def Let_def)

lemma clipPath_of_makeClipProcessor:
  "clipPath_of (snd (makeClipProcessor sk ccpr opListID path accessRect w h))
     (opListID, getGenerationID sk path) =
   Some (case clipPath_of ccpr (opListID, getGenerationID sk path) of
           None \<Rightarrow> ClipPath_init sk path accessRect w h
         | Some c \<Rightarrow> addAccess c accessRect)"
  by (simp add: makeClipProcessor_def clipPath_of_def pendingPaths_def Let_def update_conv')

lemma makeClipProcessor_flag:
  "fMustCheckBounds (fst (makeClipProcessor sk ccpr opListID path accessRect w h)) =
     (\<not> contains
          (case clipPath_of ccpr (opListID, getGenerationID sk path) of
             None \<Rightarrow> roundOut (getBounds sk path)
           | Some c \<Rightarrow> fPathDevIBounds c) accessRect)"
  by (simp add: makeClipProcessor_def clipPath_of_def Let_def ClipPath_init_def addAccess_def
           split: option.splits)

lemma makeClipProcessor_calls_entry:
  "clipPath_of (snd (makeClipProcessor_calls sk ccpr opListID path w h rects))
     (opListID, getGenerationID sk path) =
   foldl (\<lambda>e r. Some (case e of None \<Rightarrow> ClipPath_init sk path r w h
                               | Some c \<Rightarrow> addAccess c r))
     (clipPath_of ccpr (opListID, getGenerationID sk path)) rects"
proof (induction rects arbitrary: ccpr)
  case Nil
  show ?case by simp
next
  case (Cons r rects)
  show ?case
    using Cons.IH[of "snd (makeClipProcessor sk ccpr opListID path r w h)"]
      clipPath_of_makeClipProcessor[of sk ccpr opListID path r w h]
    by (simp add: split_beta)
qed

lemma makeClipProcessor_calls_flags:
  "map fMustCheckBounds (fst (makeClipProcessor_calls sk ccpr opListID path w h rects)) =
   map (\<lambda>r. \<not> contains
          (case clipPath_of ccpr (opListID, getGenerationID sk path) of
             None \<Rightarrow> roundOut (getBounds sk path)
           | Some c \<Rightarrow> fPathDevIBounds c) r) rects"
proof (induction rects arbitrary: ccpr)
  case Nil
  show ?case by simp
next
  case (Cons r rects)
  let ?ccpr1 = "snd (makeClipProcessor sk ccpr opListID path r w h)"
  have "(case clipPath_of ?ccpr1 (opListID, getGenerationID sk path) of
             None \<Rightarrow> roundOut (getBounds sk path)
           | Some c \<Rightarrow> fPathDevIBounds c) =
        (case clipPath_of ccpr (opListID, getGenerationID sk path) of
             None \<Rightarrow> roundOut (getBounds sk path)
           | Some c \<Rightarrow> fPathDevIBounds c)"
    unfolding clipPath_of_makeClipProcessor
    by (simp add: ClipPath_init_sel addAccess_def split: option.splits)
  with Cons.IH[of ?ccpr1] makeClipProcessor_flag[of sk ccpr opListID path r w h]
  show ?case by (simp add: split_beta)
qed

lemma addAccess_foldl:
  "\<exists>c'. foldl (\<lambda>e r. Some (case e of None \<Rightarrow> ClipPath_init sk path r w h
                                    | Some c \<Rightarrow> addAccess c r)) (Some c) rects = Some c' \<and>
        fPathDevIBounds c' = fPathDevIBounds c \<and>
        fAccessRect c' = foldl join (fAccessRect c) rects"
proof (induction rects arbitrary: c)
  case Nil
  show ?case by simp
next
  case (Cons r rects)
  from Cons.IH[of "addAccess c r"] show ?case by (simp add: addAccess_def)
qed

text \<open>
  C7, as amended. For a run of \<open>makeClipProcessor\<close> calls on one path in one
  render-target list that starts without an entry for the path, each call's processor
  has \<open>mustCheckBounds\<close> true exactly when the path's rounded-out device bounds do
  not contain the access rectangle of that call. The entry keeps those bounds, and its
  access rectangle is the join of all the access rectangles so far.
\<close>

theorem makeClipProcessor_checks_its_own_access_rect:
  assumes "clipPath_of ccpr (opListID, getGenerationID sk path) = None"
  shows "case makeClipProcessor_calls sk ccpr opListID path w h rects of
           (fps, ccpr') \<Rightarrow>
             map fMustCheckBounds fps =
               map (\<lambda>accessRect. \<not> contains (roundOut (getBounds sk path)) accessRect) rects \<and>
             (rects \<noteq> [] \<longrightarrow>
                map_option fPathDevIBounds (clipPath_of ccpr' (opListID, getGenerationID sk path)) =
                  Some (roundOut (getBounds sk path)) \<and>
                map_option fAccessRect (clipPath_of ccpr' (opListID, getGenerationID sk path)) =
                  Some (foldl join (hd rects) (tl rects)))"
proof -
  have flags: "map fMustCheckBounds (fst (makeClipProcessor_calls sk ccpr opListID path w h rects)) =
      map (\<lambda>accessRect. \<not> contains (roundOut (getBounds sk path)) accessRect) rects"
    using makeClipProcessor_calls_flags[of sk ccpr opListID path w h rects] assms by simp
  have entry: "map_option fPathDevIBounds (clipPath_of
          (snd (makeClipProcessor_calls sk ccpr opListID path w h rects))
          (opListID, getGenerationID sk path)) = Some (roundOut (getBounds sk path)) \<and>
        map_option fAccessRect (clipPath_of
          (snd (makeClipProcessor_calls sk ccpr opListID path w h rects))
          (opListID, getGenerationID sk path)) = Some (foldl join (hd rects) (tl rects))"
    if "rects \<noteq> []"
  proof -
    from that obtain r rs where rects: "rects = r # rs" by (cases rects) auto
    from addAccess_foldl[of sk path w h "ClipPath_init sk path r w h" rs]
    show ?thesis
      unfolding makeClipProcessor_calls_entry assms rects
      by (auto simp: ClipPath_init_sel)
  qed
  from flags entry show ?thesis by (simp add: split_beta)
qed

theorem makeClipProcessor_checks_its_own_access_rect_witness:
  "clipPath_of example_ccpr (1, getGenerationID example_sk (Some (MakeLTRB 0 0 100 100))) = None \<and>
   (case makeClipProcessor_calls example_sk example_ccpr 1 (Some (MakeLTRB 0 0 100 100)) 1000 1000
           [MakeLTRB 0 0 200 200, MakeLTRB 10 10 20 20] of
      (fps, ccpr') \<Rightarrow>
        map fMustCheckBounds fps = [True, False] \<and>
        map_option fAccessRect (clipPath_of ccpr' (1, 1)) = Some (MakeLTRB 0 0 200 200))"
proof -
  have a: "clipPath_of example_ccpr (1, getGenerationID example_sk (Some (MakeLTRB 0 0 100 100))) = None"
    by (simp add: clipPath_of_def pendingPaths_def example_ccpr_def RTPendingPaths_new_def)
  from makeClipProcessor_checks_its_own_access_rect
         [OF a, where w = 1000 and h = 1000 and rects = "[MakeLTRB 0 0 200 200, MakeLTRB 10 10 20 20]"] a
  show ?thesis
    by (simp add: example_sk_simps roundOut_def contains_def isEmpty_def join_def MakeLTRB_def
          split_beta)
qed

text \<open>
  The claim as it stands fails: after an access of \<open>(0, 0, 200, 200)\<close> the union is
  not contained in the path's bounds \<open>(0, 0, 100, 100)\<close>, yet the processor of a
  second access of \<open>(10, 10, 20, 20)\<close> is built with \<open>mustCheckBounds\<close> false.
\<close>

theorem makeClipProcessor_union_counterexample:
  "fMustCheckBounds (last (fst (makeClipProcessor_calls example_sk example_ccpr 1
       (Some (MakeLTRB 0 0 100 100)) 1000 1000 [MakeLTRB 0 0 200 200, MakeLTRB 10 10 20 20]))) = False \<and>
   map_option fPathDevIBounds (clipPath_of (snd (makeClipProcessor_calls example_sk example_ccpr 1
       (Some (MakeLTRB 0 0 100 100)) 1000 1000 [MakeLTRB 0 0 200 200, MakeLTRB 10 10 20 20])) (1, 1))
     = Some (MakeLTRB 0 0 100 100) \<and>
   map_option fAccessRect (clipPath_of (snd (makeClipProcessor_calls example_sk example_ccpr 1
       (Some (MakeLTRB 0 0 100 100)) 1000 1000 [MakeLTRB 0 0 200 200, MakeLTRB 10 10 20 20])) (1, 1))
     = Some (MakeLTRB 0 0 200 200) \<and>
   \<not> contains (MakeLTRB 0 0 100 100) (MakeLTRB 0 0 200 200)"
  by (simp add: makeClipProcessor_def clipPath_of_def pendingPaths_def example_ccpr_def
        RTPendingPaths_new_def ClipPath_init_def addAccess_def example_sk_simps Let_def
        roundOut_def contains_def isEmpty_def join_def MakeLTRB_def kPathCropThreshold_def
        width_def height_def)

subsection \<open>placeParsedPathInAtlas\<close>

lemma clipPathIBounds_cases:
  "clipPathIBounds clipIBounds pathIBounds =
     (if contains clipIBounds pathIBounds then Some (pathIBounds, kNonScissored)
      else map_option (\<lambda>c. (c, kScissored)) (intersect clipIBounds pathIBounds))"
  by (simp add: clipPathIBounds_def split: option.splits)

lemma placeParsedPathInAtlas_rejected:
  assumes "\<not> contains clipIBounds pathIBounds" and "intersect clipIBounds pathIBounds = None"
  shows "placeParsedPathInAtlas sk pages builder clipIBounds pathIBounds =
           (None, pages, builder @ [discardParsedPath])"
  using assms by (simp add: placeParsedPathInAtlas_def clipPathIBounds_cases)

lemma placeParsedPathInAtlas_placed:
  assumes "clipPathIBounds clipIBounds pathIBounds = Some (bounds, mode)"
  shows "case atlas_place sk pages builder (width bounds) (height bounds) of
           (A, B, loc) \<Rightarrow>
             \<exists>atlas x y. placeParsedPathInAtlas sk pages builder clipIBounds pathIBounds =
               (Some (atlas, x, y), A, B @ [saveParsedPath mode bounds x y])"
  using assms by (simp add: placeParsedPathInAtlas_def Let_def split_beta)

text \<open>
  Path bounds that are empty are contained in nothing and intersect nothing, so such a
  path is always rejected.
\<close>

lemma placeParsedPathInAtlas_empty_bounds:
  assumes "isEmpty pathIBounds"
  shows "placeParsedPathInAtlas sk pages builder clipIBounds pathIBounds =
           (None, pages, builder @ [discardParsedPath])"
  using assms
  by (intro placeParsedPathInAtlas_rejected) (simp_all add: contains_def intersect_def)

text \<open>
  C1. When \<open>clipIBounds\<close> contains \<open>pathIBounds\<close>, the path is placed with
  \<open>pathIBounds\<close> and saved as non-scissored; otherwise, when the two intersect, it is
  placed with the intersection and saved as scissored; otherwise the call returns the
  null atlas, the parsed path is discarded and the atlases are left alone. In that last
  case \<open>setupResources\<close> writes no instance for the draw and counts it as skipped,
  and a clip path is left without an atlas.
\<close>

theorem placeParsedPathInAtlas_three_cases:
  "(case placeParsedPathInAtlas sk pages builder clipIBounds pathIBounds of
      (placed, atlases', builder') \<Rightarrow>
        if contains clipIBounds pathIBounds
        then case atlas_place sk pages builder (width pathIBounds) (height pathIBounds) of
               (A, B, loc) \<Rightarrow>
                 \<exists>atlas x y. placed = Some (atlas, x, y) \<and> atlases' = A \<and>
                   builder' = B @ [saveParsedPath kNonScissored pathIBounds x y]
        else case intersect clipIBounds pathIBounds of
               Some clipped \<Rightarrow>
                 (case atlas_place sk pages builder (width clipped) (height clipped) of
                    (A, B, loc) \<Rightarrow>
                      \<exists>atlas x y. placed = Some (atlas, x, y) \<and> atlases' = A \<and>
                        builder' = B @ [saveParsedPath kScissored clipped x y])
             | None \<Rightarrow>
                 placed = None \<and> atlases' = pages \<and> builder' = builder @ [discardParsedPath]) \<and>
   (\<not> contains (fClipIBounds draw) (roundOut (fst (parsePath_bounds sk (fMatrix draw) (fPath draw)))) \<and>
    intersect (fClipIBounds draw) (roundOut (fst (parsePath_bounds sk (fMatrix draw) (fPath draw)))) = None
    \<longrightarrow> (case setupResources_draw sk draw (op, currentAtlas, fl) of
           (op', currentAtlas', fl') \<Rightarrow>
             pathInstanceData fl' = pathInstanceData fl \<and>
             pathInstanceIdx fl' = pathInstanceIdx fl \<and>
             fAtlasBatches op' = fAtlasBatches op \<and>
             fNumSkippedInstances op' = fNumSkippedInstances op + 1 \<and>
             currentAtlas' = currentAtlas)) \<and>
   (\<not> contains (fAccessRect clipPath) (fPathDevIBounds clipPath) \<and>
    intersect (fAccessRect clipPath) (fPathDevIBounds clipPath) = None
    \<longrightarrow> fAtlas (fst (placePathInAtlas sk clipPath fl)) = None)"
proof (intro conjI impI)
  show "case placeParsedPathInAtlas sk pages builder clipIBounds pathIBounds of
      (placed, atlases', builder') \<Rightarrow>
        if contains clipIBounds pathIBounds
        then case atlas_place sk pages builder (width pathIBounds) (height pathIBounds) of
               (A, B, loc) \<Rightarrow>
                 \<exists>atlas x y. placed = Some (atlas, x, y) \<and> atlases' = A \<and>
                   builder' = B @ [saveParsedPath kNonScissored pathIBounds x y]
        else case intersect clipIBounds pathIBounds of
               Some clipped \<Rightarrow>
                 (case atlas_place sk pages builder (width clipped) (height clipped) of
                    (A, B, loc) \<Rightarrow>
                      \<exists>atlas x y. placed = Some (atlas, x, y) \<and> atlases' = A \<and>
                        builder' = B @ [saveParsedPath kScissored clipped x y])
             | None \<Rightarrow>
                 placed = None \<and> atlases' = pages \<and> builder' = builder @ [discardParsedPath]"
  proof (cases "clipPathIBounds clipIBounds pathIBounds")
    case None
    then have "\<not> contains clipIBounds pathIBounds" "intersect clipIBounds pathIBounds = None"
      by (auto simp: clipPathIBounds_cases split: if_splits)
    then show ?thesis by (simp add: placeParsedPathInAtlas_rejected)
  next
    case (Some bm)
    obtain bounds mode where bm: "bm = (bounds, mode)" by (cases bm)
    from placeParsedPathInAtlas_placed[OF Some[unfolded bm], of sk pages builder]
      Some[unfolded bm]
    show ?thesis
      by (auto simp: clipPathIBounds_cases split_beta split: if_splits)
  qed
next
  assume "\<not> contains (fClipIBounds draw) (roundOut (fst (parsePath_bounds sk (fMatrix draw) (fPath draw)))) \<and>
    intersect (fClipIBounds draw) (roundOut (fst (parsePath_bounds sk (fMatrix draw) (fPath draw)))) = None"
  then show "case setupResources_draw sk draw (op, currentAtlas, fl) of
           (op', currentAtlas', fl') \<Rightarrow>
             pathInstanceData fl' = pathInstanceData fl \<and>
             pathInstanceIdx fl' = pathInstanceIdx fl \<and>
             fAtlasBatches op' = fAtlasBatches op \<and>
             fNumSkippedInstances op' = fNumSkippedInstances op + 1 \<and>
             currentAtlas' = currentAtlas"
    by (simp add: setupResources_draw_def placeParsedPathInAtlas_rejected split_beta)
next
  assume "\<not> contains (fAccessRect clipPath) (fPathDevIBounds clipPath) \<and>
    intersect (fAccessRect clipPath) (fPathDevIBounds clipPath) = None"
  then show "fAtlas (fst (placePathInAtlas sk clipPath fl)) = None"
    by (simp add: placePathInAtlas_def placeParsedPathInAtlas_rejected)
qed

theorem placeParsedPathInAtlas_three_cases_witness:
  "(case placeParsedPathInAtlas example_sk [] [] (MakeLTRB 0 0 100 100) (MakeLTRB 10 10 50 50) of
      (placed, atlases', builder') \<Rightarrow>
        placed = Some (0, -10, -10) \<and> atlases' = [1] \<and>
        builder' = [saveParsedPath kNonScissored (MakeLTRB 10 10 50 50) (-10) (-10)]) \<and>
   (case placeParsedPathInAtlas example_sk [] [] (MakeLTRB 0 0 100 100) (MakeLTRB 50 50 150 150) of
      (placed, atlases', builder') \<Rightarrow>
        placed = Some (0, -50, -50) \<and> atlases' = [1] \<and>
        builder' = [saveParsedPath kScissored (MakeLTRB 50 50 100 100) (-50) (-50)]) \<and>
   placeParsedPathInAtlas example_sk [] [] (MakeLTRB 0 0 100 100) (MakeLTRB 200 200 300 300) =
     (None, [], [discardParsedPath]) \<and>
   (case setupResources_draw example_sk (fHeadDraw (example_op (MakeLTRB 200 200 300 300)))
           (example_op (MakeLTRB 200 200 300 300), None, Flush_start []) of
      (op', currentAtlas', fl') \<Rightarrow>
         pathInstanceIdx fl' = 0 \<and> fNumSkippedInstances op' = 1 \<and> fAtlasBatches op' = []) \<and>
   fAtlas (fst (placePathInAtlas example_sk
      (ClipPath_init example_sk (Some (MakeLTRB 200 200 300 300)) (MakeLTRB 0 0 100 100) 1000 1000)
      (Flush_start []))) = None"
  using placeParsedPathInAtlas_three_cases
          [where sk = example_sk and pages = "[]" and builder = "[]"
             and clipIBounds = "MakeLTRB 0 0 100 100" and pathIBounds = "MakeLTRB 10 10 50 50"
             and draw = "fHeadDraw (example_op (MakeLTRB 200 200 300 300))"
             and op = "example_op (MakeLTRB 200 200 300 300)" and currentAtlas = None
             and fl = "Flush_start []"
             and clipPath = "ClipPath_init example_sk (Some (MakeLTRB 200 200 300 300))
                               (MakeLTRB 0 0 100 100) 1000 1000"]
        placeParsedPathInAtlas_three_cases
          [where sk = example_sk and pages = "[]" and builder = "[]"
             and clipIBounds = "MakeLTRB 0 0 100 100" and pathIBounds = "MakeLTRB 50 50 150 150"]
        placeParsedPathInAtlas_three_cases
          [where sk = example_sk and pages = "[]" and builder = "[]"
             and clipIBounds = "MakeLTRB 0 0 100 100" and pathIBounds = "MakeLTRB 200 200 300 300"]
  by (simp add: example_op_def DrawPathsOp_ctor_def example_draw_args_def example_sk_simps
        ClipPath_init_def Flush_start_def kPathCropThreshold_def scale_rect_def scale_path_def finite_rect_def roundOut_def
        placeParsedPathInAtlas_def clipPathIBounds_def atlas_place_def
        contains_def intersect_def isEmpty_def MakeLTRB_def width_def height_def Let_def int16_t_def
        SkRect_width_def SkRect_height_def round_to_128th_def split_beta)

subsection \<open>The flush\<close>

lemma count_path_keeps [simp]:
  "maxTotalPaths (count_path sk path c) = maxTotalPaths c"
  "numClipPaths (count_path sk path c) = numClipPaths c"
  by (simp_all add: count_path_def)

lemma count_draws_total:
  "maxTotalPaths (count_draws sk ds c) = maxTotalPaths c + int (length ds) \<and>
   numClipPaths (count_draws sk ds c) = numClipPaths c"
  by (induction ds arbitrary: c) auto

lemma count_ops_total:
  "maxTotalPaths (count_ops sk A ops c) =
     maxTotalPaths c + (\<Sum>op \<leftarrow> ops. int (length (head_draws A op))) \<and>
   numClipPaths (count_ops sk A ops c) = numClipPaths c"
  by (induction ops arbitrary: c) (auto simp: count_draws_total)

lemma count_clips_keeps:
  "maxTotalPaths (count_clips sk clips c) = maxTotalPaths c \<and>
   numClipPaths (count_clips sk clips c) = numClipPaths c"
  by (induction clips arbitrary: c) auto

lemma count_opLists_total:
  "maxTotalPaths (count_opLists sk m ids c) =
     maxTotalPaths c + pending_draws m ids + pending_clips m ids \<and>
   numClipPaths (count_opLists sk m ids c) = numClipPaths c + pending_clips m ids"
proof (induction ids arbitrary: c)
  case Nil
  show ?case by (simp add: pending_draws_def pending_clips_def)
next
  case (Cons opListID ids)
  show ?case
  proof (cases "map_of m opListID")
    case None
    with Cons.IH[of c] show ?thesis by (simp add: pending_draws_def pending_clips_def)
  next
    case (Some rt)
    with Cons.IH show ?thesis
      by (simp add: pending_draws_def pending_clips_def draws_in_def Let_def
            count_clips_keeps count_ops_total)
  qed
qed

lemma filled_write:
  assumes "filled fl"
    and "pathInstanceData fl' = (pathInstanceData fl)(pathInstanceIdx fl \<mapsto> v)"
    and "pathInstanceIdx fl' = pathInstanceIdx fl + 1"
  shows "filled fl'"
  using assms by (auto simp: filled_def)

lemma filled_same:
  assumes "filled fl"
    and "pathInstanceData fl' = pathInstanceData fl"
    and "pathInstanceIdx fl' = pathInstanceIdx fl"
  shows "filled fl'"
  using assms by (simp add: filled_def)

lemma setupResources_draw_step:
  "case setupResources_draw sk draw (op, cur, fl) of
     (op', cur', fl') \<Rightarrow>
       pathInstanceIdx fl' + fNumSkippedInstances op' =
         pathInstanceIdx fl + fNumSkippedInstances op + 1 \<and>
       fNumSkippedInstances op \<le> fNumSkippedInstances op' \<and>
       skippedTotalPaths fl' = skippedTotalPaths fl \<and>
       (filled fl \<longrightarrow> filled fl')"
proof -
  let ?b = "parsePath_bounds sk (fMatrix draw) (fPath draw)"
  obtain placed A B where p: "placeParsedPathInAtlas sk (atlases fl)
      (atlasOpsBuilder fl @ [parsePath (fMatrix draw) (fPath draw)])
      (fClipIBounds draw) (roundOut (fst ?b)) = (placed, A, B)"
    by (cases "placeParsedPathInAtlas sk (atlases fl)
      (atlasOpsBuilder fl @ [parsePath (fMatrix draw) (fPath draw)])
      (fClipIBounds draw) (roundOut (fst ?b))")
  show ?thesis
  proof (cases placed)
    case None
    with p show ?thesis
      by (auto simp: setupResources_draw_def Let_def split_beta intro: filled_same)
  next
    case (Some t)
    obtain atlas x y where t: "t = (atlas, x, y)" by (cases t)
    from p Some t show ?thesis
      by (auto simp: setupResources_draw_def Let_def split_beta addAtlasBatch_def
               split: option.splits intro: filled_write)
  qed
qed

lemma setupResources_loop_total:
  "case setupResources_loop sk ds (op, cur, fl) of
     (op', cur', fl') \<Rightarrow>
       pathInstanceIdx fl' + fNumSkippedInstances op' =
         pathInstanceIdx fl + fNumSkippedInstances op + int (length ds) \<and>
       fNumSkippedInstances op \<le> fNumSkippedInstances op' \<and>
       skippedTotalPaths fl' = skippedTotalPaths fl \<and>
       (filled fl \<longrightarrow> filled fl')"
proof (induction ds arbitrary: op cur fl)
  case Nil
  show ?case by simp
next
  case (Cons d ds)
  obtain op1 cur1 fl1 where s: "setupResources_draw sk d (op, cur, fl) = (op1, cur1, fl1)"
    by (cases "setupResources_draw sk d (op, cur, fl)")
  from setupResources_draw_step[where sk = sk and draw = d and op = op and cur = cur and fl = fl]
    Cons.IH[where op = op1 and cur = cur1 and fl = fl1] s
  show ?case by (auto simp: split_beta)
qed

lemma head_draws_fBaseInstance [simp]:
  "head_draws A (op\<lparr>fBaseInstance := b\<rparr>) = head_draws A op"
  by (simp add: head_draws_def SingleDraws_def)

lemma setupResources_total:
  "case setupResources sk A op fl of
     (op', fl') \<Rightarrow>
       pathInstanceIdx fl' + fNumSkippedInstances op' =
         pathInstanceIdx fl + fNumSkippedInstances op + int (length (head_draws A op)) \<and>
       fNumSkippedInstances op \<le> fNumSkippedInstances op' \<and>
       skippedTotalPaths fl' = skippedTotalPaths fl \<and>
       (filled fl \<longrightarrow> filled fl')"
proof -
  obtain op1 cur1 fl1 where s: "setupResources_loop sk (head_draws A op)
      (op\<lparr>fBaseInstance := pathInstanceIdx fl\<rparr>, None, fl) = (op1, cur1, fl1)"
    by (cases "setupResources_loop sk (head_draws A op)
      (op\<lparr>fBaseInstance := pathInstanceIdx fl\<rparr>, None, fl)")
  from setupResources_loop_total[where sk = sk and ds = "head_draws A op"
      and op = "op\<lparr>fBaseInstance := pathInstanceIdx fl\<rparr>" and cur = None and fl = fl] s
  show ?thesis
    by (auto simp: setupResources_def Let_def addAtlasBatch_def split: option.splits)
qed

lemma setup_ops_total:
  assumes "\<forall>op \<in> set ops. fNumSkippedInstances op = 0"
  shows "case setup_ops sk A ops fl of
     (ops', fl') \<Rightarrow>
       pathInstanceIdx fl' + skippedTotalPaths fl' =
         pathInstanceIdx fl + skippedTotalPaths fl +
         (\<Sum>op \<leftarrow> ops. int (length (head_draws A op))) \<and>
       skippedTotalPaths fl \<le> skippedTotalPaths fl' \<and>
       (filled fl \<longrightarrow> filled fl')"
  using assms
proof (induction ops arbitrary: fl)
  case Nil
  show ?case by simp
next
  case (Cons op ops)
  obtain op1 fl1 where s: "setupResources sk A op fl = (op1, fl1)"
    by (cases "setupResources sk A op fl")
  let ?fl2 = "fl1\<lparr>skippedTotalPaths := skippedTotalPaths fl1 + fNumSkippedInstances op1\<rparr>"
  have f2: "filled ?fl2 = filled fl1" by (simp add: filled_def)
  from Cons.prems have "\<forall>op \<in> set ops. fNumSkippedInstances op = 0" "fNumSkippedInstances op = 0"
    by simp_all
  with setupResources_total[where sk = sk and A = A and op = op and fl = fl] Cons.IH[of ?fl2] s f2
  show ?case by (auto simp: split_beta Let_def)
qed

lemma setup_clips_keeps:
  "case setup_clips sk clips fl of
     (clips', fl') \<Rightarrow>
       pathInstanceIdx fl' = pathInstanceIdx fl \<and>
       skippedTotalPaths fl' = skippedTotalPaths fl \<and>
       pathInstanceData fl' = pathInstanceData fl"
proof (induction clips arbitrary: fl)
  case Nil
  show ?case by simp
next
  case (Cons c clips)
  from Cons.IH[of "snd (placePathInAtlas sk (snd c) fl)"] show ?case
    by (simp add: split_beta placePathInAtlas_def Let_def)
qed


lemma pending_draws_cong:
  assumes "\<forall>k \<in> set ids. map_of m1 k = map_of m k"
  shows "pending_draws m1 ids = pending_draws m ids"
  using assms unfolding pending_draws_def by (induction ids) auto

lemma setup_opLists_total:
  assumes "distinct ids"
    and "\<forall>k \<in> set ids. \<forall>rt. map_of m k = Some rt \<longrightarrow>
           (\<forall>op \<in> set (fDrawOps rt). fNumSkippedInstances op = 0)"
  shows "case setup_opLists sk ids (m, fl) of
     (m', fl') \<Rightarrow>
       pathInstanceIdx fl' + skippedTotalPaths fl' =
         pathInstanceIdx fl + skippedTotalPaths fl + pending_draws m ids \<and>
       skippedTotalPaths fl \<le> skippedTotalPaths fl' \<and>
       (filled fl \<longrightarrow> filled fl')"
  using assms
proof (induction ids arbitrary: m fl)
  case Nil
  show ?case by (simp add: pending_draws_def)
next
  case (Cons k ids)
  from Cons.prems have d: "distinct ids" and k: "k \<notin> set ids" by simp_all
  show ?case
  proof (cases "map_of m k")
    case None
    from Cons.prems have "\<forall>j \<in> set ids. \<forall>rt. map_of m j = Some rt \<longrightarrow>
           (\<forall>op \<in> set (fDrawOps rt). fNumSkippedInstances op = 0)" by simp
    from Cons.IH[OF d this, where fl = fl] None show ?thesis
      by (simp add: pending_draws_def)
  next
    case (Some rt)
    obtain ops1 fl1 where o: "setup_ops sk (fDrawsAllocator rt) (fDrawOps rt) fl = (ops1, fl1)"
      by (cases "setup_ops sk (fDrawsAllocator rt) (fDrawOps rt) fl")
    obtain clips1 fl2 where c: "setup_clips sk (in_key_order (fClipPaths rt)) fl1 = (clips1, fl2)"
      by (cases "setup_clips sk (in_key_order (fClipPaths rt)) fl1")
    let ?m1 = "AList.update k (rt\<lparr>fDrawOps := ops1, fClipPaths := clips1\<rparr>) m"
    have same: "\<forall>j \<in> set ids. map_of ?m1 j = map_of m j"
      using k by (auto simp: update_conv')
    with Cons.prems have fresh1: "\<forall>j \<in> set ids. \<forall>rt. map_of ?m1 j = Some rt \<longrightarrow>
           (\<forall>op \<in> set (fDrawOps rt). fNumSkippedInstances op = 0)" by simp
    from Cons.prems Some have fresh0: "\<forall>op \<in> set (fDrawOps rt). fNumSkippedInstances op = 0"
      by simp
    have s1: "pathInstanceIdx fl1 + skippedTotalPaths fl1 =
                pathInstanceIdx fl + skippedTotalPaths fl + draws_in rt"
      and k1: "skippedTotalPaths fl \<le> skippedTotalPaths fl1"
      and f1: "filled fl \<longrightarrow> filled fl1"
      using setup_ops_total[OF fresh0, where sk = sk and A = "fDrawsAllocator rt" and fl = fl] o
      by (simp_all add: draws_in_def)
    have s2: "pathInstanceIdx fl2 = pathInstanceIdx fl1" "skippedTotalPaths fl2 = skippedTotalPaths fl1"
      "pathInstanceData fl2 = pathInstanceData fl1"
      using setup_clips_keeps[where sk = sk and clips = "in_key_order (fClipPaths rt)" and fl = fl1] c
      by simp_all
    then have f2: "filled fl1 \<longrightarrow> filled fl2" by (auto intro: filled_same)
    have p: "pending_draws m (k # ids) = draws_in rt + pending_draws ?m1 ids"
      using Some pending_draws_cong[OF same] by (simp add: pending_draws_def)
    from Cons.IH[OF d fresh1, where fl = fl2] Some o c s1 k1 s2 f1 f2 p show ?thesis
      by (auto simp: split_beta)
  qed
qed

lemma filled_start: "filled (Flush_start a)"
  by (simp add: filled_def Flush_start_def)

text \<open>
  C6, as amended. For a flush that reaches the pass filling the instance buffer (paths
  are pending and the index, vertex and instance buffers are allocated), with every
  render-target list named once and no op set up before: the number of instances
  written, plus the number of skipped instances, plus the number of clip paths, is the
  total path count of the counting pass, the count the instance buffer is sized with.
  The slots written are exactly those below the number of instances written, and that
  number never exceeds the count the buffer is sized with.
\<close>

theorem preFlush_accounts_for_every_path:
  assumes "chains_ok ccpr opListIDs" and "distinct opListIDs"
    and "fRTPendingPathsMap ccpr \<noteq> []"
    and "maxTotalPaths (count_opLists sk (fRTPendingPathsMap ccpr) opListIDs Counts_zero) \<noteq> 0"
    and "FindOrMakeIndexBuffer sk" and "FindOrMakeVertexBuffer sk"
    and "makeBuffer sk (maxTotalPaths (count_opLists sk (fRTPendingPathsMap ccpr) opListIDs Counts_zero)
                        * sizeof_PathInstance sk)"
  shows "pathInstanceIdx (flush (preFlush sk ccpr opListIDs)) +
         skippedTotalPaths (flush (preFlush sk ccpr opListIDs)) +
         numClipPaths (counts (preFlush sk ccpr opListIDs)) =
         maxTotalPaths (counts (preFlush sk ccpr opListIDs)) \<and>
         {i. pathInstanceData (flush (preFlush sk ccpr opListIDs)) i \<noteq> None} =
           {0 ..< pathInstanceIdx (flush (preFlush sk ccpr opListIDs))} \<and>
         pathInstanceIdx (flush (preFlush sk ccpr opListIDs)) \<le>
           maxTotalPaths (counts (preFlush sk ccpr opListIDs))"
proof -
  let ?m = "fRTPendingPathsMap ccpr"
  let ?c = "count_opLists sk ?m opListIDs Counts_zero"
  let ?fl0 = "Flush_start (fPerFlushAtlases ccpr) :: ('a, 'b, 'd) Flush"
  obtain m1 fl1 where s: "setup_opLists sk opListIDs (?m, ?fl0) = (m1, fl1)"
    by (cases "setup_opLists sk opListIDs (?m, ?fl0)")
  from assms(1) have fresh: "\<forall>k \<in> set opListIDs. \<forall>rt. map_of ?m k = Some rt \<longrightarrow>
           (\<forall>op \<in> set (fDrawOps rt). fNumSkippedInstances op = 0)"
    by (auto simp: chains_ok_def split: option.splits)
  from setup_opLists_total[OF assms(2) fresh, where sk = sk and fl = ?fl0] s
  have t: "pathInstanceIdx fl1 + skippedTotalPaths fl1 = pending_draws ?m opListIDs"
    and k: "0 \<le> skippedTotalPaths fl1"
    and f: "filled fl1"
    by (simp_all add: filled_start) (simp_all add: Flush_start_def)
  have c: "maxTotalPaths ?c = pending_draws ?m opListIDs + pending_clips ?m opListIDs"
    "numClipPaths ?c = pending_clips ?m opListIDs"
    using count_opLists_total[where sk = sk and m = ?m and ids = opListIDs and c = Counts_zero] by (simp_all add: Counts_zero_def)
  have fl: "pathInstanceIdx (flush (preFlush sk ccpr opListIDs)) = pathInstanceIdx fl1"
    "skippedTotalPaths (flush (preFlush sk ccpr opListIDs)) = skippedTotalPaths fl1"
    "pathInstanceData (flush (preFlush sk ccpr opListIDs)) = pathInstanceData fl1"
    "counts (preFlush sk ccpr opListIDs) = ?c"
    using assms(3-7) s by (simp_all add: preFlush_def Let_def split_beta)
  from f have "{i. pathInstanceData fl1 i \<noteq> None} = {0 ..< pathInstanceIdx fl1}"
    by (auto simp: filled_def)
  moreover have "0 \<le> pending_clips ?m opListIDs"
    unfolding pending_clips_def by (intro sum_list_nonneg) (auto split: option.splits)
  ultimately show ?thesis using t k c fl by simp
qed

theorem preFlush_accounts_for_every_path_witness:
  "chains_ok example_pending [1] \<and> distinct [1::nat] \<and>
   maxTotalPaths (count_opLists example_sk (fRTPendingPathsMap example_pending) [1] Counts_zero) = 3 \<and>
   pathInstanceIdx (flush (preFlush example_sk example_pending [1])) +
     skippedTotalPaths (flush (preFlush example_sk example_pending [1])) +
     numClipPaths (counts (preFlush example_sk example_pending [1])) =
     maxTotalPaths (counts (preFlush example_sk example_pending [1])) \<and>
   {i. pathInstanceData (flush (preFlush example_sk example_pending [1])) i \<noteq> None} =
     {0 ..< pathInstanceIdx (flush (preFlush example_sk example_pending [1]))} \<and>
   pathInstanceIdx (flush (preFlush example_sk example_pending [1])) \<le>
     maxTotalPaths (counts (preFlush example_sk example_pending [1]))"
proof -
  have h1: "chains_ok example_pending [1]" by code_simp
  have h2: "distinct [1::nat]" by simp
  have h3: "fRTPendingPathsMap example_pending \<noteq> []" by code_simp
  have c: "maxTotalPaths (count_opLists example_sk (fRTPendingPathsMap example_pending) [1] Counts_zero) = 3"
    by code_simp
  then have h4: "maxTotalPaths (count_opLists example_sk (fRTPendingPathsMap example_pending) [1] Counts_zero) \<noteq> 0"
    by simp
  have h5: "FindOrMakeIndexBuffer example_sk" and h6: "FindOrMakeVertexBuffer example_sk"
    and h7: "makeBuffer example_sk
      (maxTotalPaths (count_opLists example_sk (fRTPendingPathsMap example_pending) [1] Counts_zero)
       * sizeof_PathInstance example_sk)"
    by (simp_all add: example_sk_simps)
  from preFlush_accounts_for_every_path[OF h1 h2 h3 h4 h5 h6 h7] h1 h2 c
  show ?thesis by simp
qed

text \<open>
  The claim as it stands fails: with a draw inside its clip, a draw outside its clip
  and a clip path pending, the flush succeeds, one instance is written and one is
  skipped, and the counting pass has counted three paths, the clip path among them.
\<close>

theorem preFlush_accounting_counterexample:
  "fPerFlushResourcesAreValid (renderer (preFlush example_sk example_pending [1])) \<and>
   pathInstanceIdx (flush (preFlush example_sk example_pending [1])) = 1 \<and>
   skippedTotalPaths (flush (preFlush example_sk example_pending [1])) = 1 \<and>
   maxTotalPaths (counts (preFlush example_sk example_pending [1])) = 3"
  by code_simp

text \<open>
  C2. When paths are pending and one of the allocations of \<open>preFlush\<close> fails (the
  index buffer, the vertex buffer, the instance buffer, or the buffers of the atlas
  ops' \<open>finalize\<close>), \<open>preFlush\<close> prints a warning and leaves
  \<open>fPerFlushResourcesAreValid\<close> false, and every op executed afterwards hands no
  draw to the command buffer.
\<close>

theorem preFlush_failed_allocation_draws_nothing:
  assumes "fRTPendingPathsMap ccpr \<noteq> []"
    and "maxTotalPaths (count_opLists sk (fRTPendingPathsMap ccpr) opListIDs Counts_zero) \<noteq> 0"
    and "\<not> FindOrMakeIndexBuffer sk \<or> \<not> FindOrMakeVertexBuffer sk \<or>
         \<not> makeBuffer sk (maxTotalPaths (count_opLists sk (fRTPendingPathsMap ccpr) opListIDs Counts_zero)
                           * sizeof_PathInstance sk) \<or>
         \<not> builder_finalize sk (atlasOpsBuilder (flush (preFlush sk ccpr opListIDs)))"
  shows "SkDebugf (preFlush sk ccpr opListIDs) \<noteq> [] \<and>
         \<not> fPerFlushResourcesAreValid (renderer (preFlush sk ccpr opListIDs)) \<and>
         onExecute sk (renderer (preFlush sk ccpr opListIDs)) op = []"
proof -
  have "SkDebugf (preFlush sk ccpr opListIDs) \<noteq> [] \<and>
        \<not> fPerFlushResourcesAreValid (renderer (preFlush sk ccpr opListIDs))"
    using assms by (auto simp: preFlush_def Let_def split_beta)
  then show ?thesis by (simp add: onExecute_def)
qed

theorem preFlush_failed_allocation_draws_nothing_witness:
  "fRTPendingPathsMap example_pending \<noteq> [] \<and>
   \<not> makeBuffer (example_sk\<lparr>makeBuffer := \<lambda>size. False\<rparr>) (3 * 64) \<and>
   SkDebugf (preFlush (example_sk\<lparr>makeBuffer := \<lambda>size. False\<rparr>) example_pending [1]) \<noteq> [] \<and>
   \<not> fPerFlushResourcesAreValid
        (renderer (preFlush (example_sk\<lparr>makeBuffer := \<lambda>size. False\<rparr>) example_pending [1])) \<and>
   onExecute (example_sk\<lparr>makeBuffer := \<lambda>size. False\<rparr>)
     (renderer (preFlush (example_sk\<lparr>makeBuffer := \<lambda>size. False\<rparr>) example_pending [1]))
     (example_op (MakeLTRB 0 0 50 50)\<lparr>fAtlasBatches := [AtlasBatch 0 1], fBaseInstance := 0\<rparr>) = [] \<and>
   onExecute example_sk (renderer (preFlush example_sk example_pending [1]))
     (example_op (MakeLTRB 0 0 50 50)\<lparr>fAtlasBatches := [AtlasBatch 0 1], fBaseInstance := 0\<rparr>) =
     [DrawCommand 0 1 0]"
proof -
  let ?sk = "example_sk\<lparr>makeBuffer := \<lambda>size. False\<rparr>"
  have h1: "fRTPendingPathsMap example_pending \<noteq> []" by code_simp
  have c: "maxTotalPaths (count_opLists ?sk (fRTPendingPathsMap example_pending) [1] Counts_zero) = 3"
    by code_simp
  then have h2: "maxTotalPaths (count_opLists ?sk (fRTPendingPathsMap example_pending) [1] Counts_zero) \<noteq> 0"
    by simp
  have h3: "\<not> FindOrMakeIndexBuffer ?sk \<or> \<not> FindOrMakeVertexBuffer ?sk \<or>
         \<not> makeBuffer ?sk (maxTotalPaths (count_opLists ?sk (fRTPendingPathsMap example_pending) [1] Counts_zero)
                           * sizeof_PathInstance ?sk) \<or>
         \<not> builder_finalize ?sk (atlasOpsBuilder (flush (preFlush ?sk example_pending [1])))"
    by simp
  have ok: "onExecute example_sk (renderer (preFlush example_sk example_pending [1]))
     (example_op (MakeLTRB 0 0 50 50)\<lparr>fAtlasBatches := [AtlasBatch 0 1], fBaseInstance := 0\<rparr>) =
     [DrawCommand 0 1 0]"
    by code_simp
  from preFlush_failed_allocation_draws_nothing[OF h1 h2 h3] h1 ok
  show ?thesis by simp
qed

end
